theory Spec2Isabelle
  imports Main "HOL-Library.Sublist"
begin

section \<open>Strings of the runtime\<close>

text \<open>
  A JavaScript string is modelled as a \<^typ>\<open>string\<close>: one \<^typ>\<open>char\<close> per code unit,
  for the code units below 256. The double quote is \<open>CHR 0x22\<close>, the backslash
  \<open>CHR 0x5C\<close> and the line feed \<open>CHR 0x0A\<close>.
\<close>

text \<open>\<open>String.prototype.indexOf\<close>: the first position at which the pattern occurs, or -1.\<close>

fun indexOf_from :: "nat \<Rightarrow> string \<Rightarrow> string \<Rightarrow> int" where
  "indexOf_from i [] pat = (if pat = [] then int i else - 1)"
| "indexOf_from i (c # cs) pat =
     (if prefix pat (c # cs) then int i else indexOf_from (Suc i) cs pat)"

definition indexOf :: "string \<Rightarrow> string \<Rightarrow> int" where
  "indexOf s pat = indexOf_from 0 s pat"

text \<open>
  \<open>String.prototype.trim\<close> strips white space and line terminators from both ends.
  Below 256 these are TAB, LF, VT, FF, CR, SPACE and NBSP.
\<close>

definition isWhiteSpace :: "char \<Rightarrow> bool" where
  "isWhiteSpace c = ((of_char c :: nat) \<in> {9, 10, 11, 12, 13, 32, 160})"

definition trim :: "string \<Rightarrow> string" where
  "trim s = rev (dropWhile isWhiteSpace (rev (dropWhile isWhiteSpace s)))"

text \<open>Decimal digits of a natural number, as a template literal prints a number.\<close>

fun string_of_nat :: "nat \<Rightarrow> string" where
  "string_of_nat n =
     (if n < 10 then [char_of (48 + n)]
      else string_of_nat (n div 10) @ [char_of (48 + n mod 10)])"

declare string_of_nat.simps [simp del]

section \<open>Values, errors and the completion signal\<close>

text \<open>
  The Numbers of the model are the safe integers, which are the integers from
  \<open>-(2^53 - 1)\<close> to \<open>2^53 - 1\<close> (each is a Number, and prints as its plain decimal
  digits), and the three non-finite Numbers. Fractions, larger Numbers and the negative
  zero are no values of the model.
\<close>

definition MAX_SAFE_INTEGER :: int where
  "MAX_SAFE_INTEGER = 9007199254740991"

definition isSafeInteger :: "int \<Rightarrow> bool" where
  "isSafeInteger i = (- MAX_SAFE_INTEGER \<le> i \<and> i \<le> MAX_SAFE_INTEGER)"

typedef safe_integer = "{i. isSafeInteger i}"
  morphisms int_of_safe Abs_safe_integer
  by (rule exI [of _ 0]) (simp add: isSafeInteger_def MAX_SAFE_INTEGER_def)

setup_lifting type_definition_safe_integer

text \<open>The safe integer of an integer in the range (and zero outside it).\<close>

lift_definition safe_integer :: "int \<Rightarrow> safe_integer" is
  "\<lambda>i. if isSafeInteger i then i else 0"
  by (simp add: isSafeInteger_def MAX_SAFE_INTEGER_def)

instantiation safe_integer :: equal
begin

lift_definition equal_safe_integer :: "safe_integer \<Rightarrow> safe_integer \<Rightarrow> bool" is "(=)" .

instance
  by standard (transfer, simp)

end

datatype nonfinite = NaN | PosInfinity | NegInfinity

text \<open>
  The values a \<open>Credentials\<close> field can hold; a credentials object is its list of
  properties in insertion order.
\<close>

datatype jsval =
  JUndefined | JNull | JBool bool | JNumber safe_integer | JNonFinite nonfinite | JString string

fun isNonFinite :: "jsval \<Rightarrow> bool" where
  "isNonFinite (JNonFinite x) = True"
| "isNonFinite v = False"

type_synonym credentials = "(string \<times> jsval) list"

text \<open>Reading a property: a missing property reads as \<open>undefined\<close>.\<close>

definition get_field :: "credentials \<Rightarrow> string \<Rightarrow> jsval" where
  "get_field c k = (case map_of c k of None \<Rightarrow> JUndefined | Some v \<Rightarrow> v)"

text \<open>An exception is an \<open>Error\<close> object with its message.\<close>

datatype error = Error (message: string)

text \<open>
  A promise settles once: \<open>resolve\<close> and \<open>reject\<close> on a settled promise change nothing.
\<close>

datatype promise = Pending | Fulfilled | Rejected error

definition resolve :: "promise \<Rightarrow> promise" where
  "resolve p = (case p of Pending \<Rightarrow> Fulfilled | _ \<Rightarrow> p)"

definition reject :: "error \<Rightarrow> promise \<Rightarrow> promise" where
  "reject e p = (case p of Pending \<Rightarrow> Rejected e | _ \<Rightarrow> p)"

section \<open>JSON.stringify and JSON.parse on credentials objects\<close>

text \<open>
  \<open>JSON.stringify(credentials, null, 2)\<close> after ECMAScript's \<open>SerializeJSONProperty\<close>,
  \<open>QuoteJSONString\<close> and \<open>SerializeJSONObject\<close> with the gap of two spaces, for an
  object whose property values are strings, Numbers, booleans, \<open>null\<close> or
  \<open>undefined\<close> (the shape of \<open>Credentials\<close>). A property holding \<open>undefined\<close> is
  left out, a Number that is not finite is written \<open>null\<close>, and the properties are
  written in the order of the list (no property name is an array index).
\<close>

definition string_of_int :: "int \<Rightarrow> string" where
  "string_of_int i = (if i < 0 then CHR ''-'' # string_of_nat (nat (- i)) else string_of_nat (nat i))"

definition hex_digit :: "nat \<Rightarrow> char" where
  "hex_digit n = (if n < 10 then char_of (48 + n) else char_of (87 + n))"

definition QuoteJSONChar :: "char \<Rightarrow> string" where
  "QuoteJSONChar c =
     (let n = (of_char c :: nat) in
      if n = 8 then [CHR 0x5C, CHR ''b'']
      else if n = 9 then [CHR 0x5C, CHR ''t'']
      else if n = 10 then [CHR 0x5C, CHR ''n'']
      else if n = 12 then [CHR 0x5C, CHR ''f'']
      else if n = 13 then [CHR 0x5C, CHR ''r'']
      else if n = 34 then [CHR 0x5C, CHR 0x22]
      else if n = 92 then [CHR 0x5C, CHR 0x5C]
      else if n < 32 then
        [CHR 0x5C, CHR ''u'', CHR ''0'', CHR ''0'', hex_digit (n div 16), hex_digit (n mod 16)]
      else [c])"

definition QuoteJSONString :: "string \<Rightarrow> string" where
  "QuoteJSONString s = CHR 0x22 # concat (map QuoteJSONChar s) @ [CHR 0x22]"

fun SerializeJSONProperty :: "jsval \<Rightarrow> string option" where
  "SerializeJSONProperty JUndefined = None"
| "SerializeJSONProperty JNull = Some ''null''"
| "SerializeJSONProperty (JBool b) = Some (if b then ''true'' else ''false'')"
| "SerializeJSONProperty (JNumber n) = Some (string_of_int (int_of_safe n))"
| "SerializeJSONProperty (JNonFinite x) = Some ''null''"
| "SerializeJSONProperty (JString s) = Some (QuoteJSONString s)"

fun join :: "string \<Rightarrow> string list \<Rightarrow> string" where
  "join sep [] = []"
| "join sep [x] = x"
| "join sep (x # y # ys) = x @ sep @ join sep (y # ys)"

fun SerializeJSONObject :: "string \<Rightarrow> credentials \<Rightarrow> string list" where
  "SerializeJSONObject indent [] = []"
| "SerializeJSONObject indent ((k, v) # ps) =
     (case SerializeJSONProperty v of
        None \<Rightarrow> SerializeJSONObject indent ps
      | Some strP \<Rightarrow> (QuoteJSONString k @ '': '' @ strP) # SerializeJSONObject indent ps)"

definition JSON_stringify :: "credentials \<Rightarrow> string" where
  "JSON_stringify obj =
     (let indent = ''  '';
          partial = SerializeJSONObject indent obj
      in if partial = [] then ''{}''
         else ''{'' @ [CHR 0x0A] @ indent @ join ('','' @ [CHR 0x0A] @ indent) partial
              @ [CHR 0x0A] @ ''}'')"

text \<open>
  \<open>JSON.parse\<close> on the same fragment: an object whose members are strings, safe
  integers, booleans and \<open>null\<close>, with any JSON white space between the tokens and every
  string escape of the grammar. A later member with the same key overwrites the value in
  place, as \<open>CreateDataProperty\<close> does. \<open>parse_object\<close> gives \<open>None\<close> on a text
  outside the fragment (malformed text, nested values, fractions, exponents, integers
  beyond the safe ones, which the runtime would round, the negative zero, escapes of
  code units from 256 on).
\<close>

definition isJSONWhiteSpace :: "char \<Rightarrow> bool" where
  "isJSONWhiteSpace c = ((of_char c :: nat) \<in> {9, 10, 13, 32})"

definition skip_ws :: "string \<Rightarrow> string" where
  "skip_ws = dropWhile isJSONWhiteSpace"

definition hex_val :: "char \<Rightarrow> nat option" where
  "hex_val c =
     (let n = (of_char c :: nat) in
      if 48 \<le> n \<and> n \<le> 57 then Some (n - 48)
      else if 97 \<le> n \<and> n \<le> 102 then Some (n - 87)
      else if 65 \<le> n \<and> n \<le> 70 then Some (n - 55)
      else None)"

definition unescape :: "char \<Rightarrow> char option" where
  "unescape e =
     (if e = CHR 0x22 then Some (CHR 0x22)
      else if e = CHR 0x5C then Some (CHR 0x5C)
      else if e = CHR ''/'' then Some (CHR ''/'')
      else if e = CHR ''b'' then Some (CHR 0x08)
      else if e = CHR ''f'' then Some (CHR 0x0C)
      else if e = CHR ''n'' then Some (CHR 0x0A)
      else if e = CHR ''r'' then Some (CHR 0x0D)
      else if e = CHR ''t'' then Some (CHR 0x09)
      else None)"

definition parse_escape :: "string \<Rightarrow> (char \<times> string) option" where
  "parse_escape cs =
     (case cs of
        [] \<Rightarrow> None
      | e # r \<Rightarrow>
          if e = CHR ''u'' then
            (case r of
               h1 # h2 # h3 # h4 # r' \<Rightarrow>
                 (case (hex_val h1, hex_val h2, hex_val h3, hex_val h4) of
                    (Some a, Some b, Some c, Some d) \<Rightarrow>
                      (let n = ((a * 16 + b) * 16 + c) * 16 + d in
                       if n < 256 then Some (char_of n, r') else None)
                  | _ \<Rightarrow> None)
             | _ \<Rightarrow> None)
          else
            (case unescape e of
               None \<Rightarrow> None
             | Some ch \<Rightarrow> Some (ch, r)))"

lemma parse_escape_length: "parse_escape cs = Some (ch, r) \<Longrightarrow> length r < length cs"
  unfolding parse_escape_def
  by (auto split: list.splits if_splits option.splits prod.splits simp: Let_def)

function parse_chars :: "string \<Rightarrow> (string \<times> string) option" where
  "parse_chars [] = None"
| "parse_chars (c # cs) =
     (if c = CHR 0x22 then Some ([], cs)
      else if c = CHR 0x5C then
        (case parse_escape cs of
           None \<Rightarrow> None
         | Some (ch, r) \<Rightarrow>
             (case parse_chars r of
                None \<Rightarrow> None
              | Some (s, rest) \<Rightarrow> Some (ch # s, rest)))
      else if (of_char c :: nat) < 32 then None
      else (case parse_chars cs of
              None \<Rightarrow> None
            | Some (s, rest) \<Rightarrow> Some (c # s, rest)))"
  by pat_completeness auto
termination
  by (relation "measure length") (auto dest: parse_escape_length)

lemma parse_chars_length: "parse_chars s = Some (str, rest) \<Longrightarrow> length rest < length s"
proof (induction s arbitrary: str rest rule: parse_chars.induct)
  case 1
  then show ?case by simp
next
  case (2 c cs)
  show ?case
  proof (cases "c = CHR 0x22")
    case True
    with "2.prems" show ?thesis by simp
  next
    case nq: False
    show ?thesis
    proof (cases "c = CHR 0x5C")
      case True
      with nq "2.prems" obtain ch r s where
        e: "parse_escape cs = Some (ch, r)" and p: "parse_chars r = Some (s, rest)"
        by (auto split: option.splits)
      from "2.IH"(1) [OF nq True e refl p] parse_escape_length [OF e]
      show ?thesis by simp
    next
      case nb: False
      with nq "2.prems" obtain s where
        c: "\<not> (of_char c :: nat) < 32" and p: "parse_chars cs = Some (s, rest)"
        by (auto split: option.splits if_splits)
      from "2.IH"(2) [OF nq nb c p] show ?thesis by simp
    qed
  qed
qed

definition isDigit :: "char \<Rightarrow> bool" where
  "isDigit c = (48 \<le> (of_char c :: nat) \<and> (of_char c :: nat) \<le> 57)"

definition digits_val :: "string \<Rightarrow> nat" where
  "digits_val ds = foldl (\<lambda>acc c. acc * 10 + (of_char c - 48)) 0 ds"

definition parse_digits :: "string \<Rightarrow> (nat \<times> string) option" where
  "parse_digits s =
     (let ds = takeWhile isDigit s; rest = dropWhile isDigit s
      in if ds = [] then None
         else if 1 < length ds \<and> hd ds = CHR ''0'' then None
         else Some (digits_val ds, rest))"

definition parse_number :: "string \<Rightarrow> (safe_integer \<times> string) option" where
  "parse_number s =
     (case s of
        [] \<Rightarrow> None
      | c # r \<Rightarrow>
          if c = CHR ''-'' then
            (case parse_digits r of
               None \<Rightarrow> None
             | Some (n, rest) \<Rightarrow>
                 if n = 0 \<or> \<not> isSafeInteger (- int n) then None
                 else Some (safe_integer (- int n), rest))
          else
            (case parse_digits s of
               None \<Rightarrow> None
             | Some (n, rest) \<Rightarrow>
                 if \<not> isSafeInteger (int n) then None
                 else Some (safe_integer (int n), rest)))"

definition parse_value :: "string \<Rightarrow> (jsval \<times> string) option" where
  "parse_value s =
     (case s of
        [] \<Rightarrow> None
      | c # r \<Rightarrow>
          if c = CHR 0x22 then
            (case parse_chars r of None \<Rightarrow> None | Some (str, rest) \<Rightarrow> Some (JString str, rest))
          else if prefix ''null'' s then Some (JNull, drop 4 s)
          else if prefix ''true'' s then Some (JBool True, drop 4 s)
          else if prefix ''false'' s then Some (JBool False, drop 5 s)
          else (case parse_number s of None \<Rightarrow> None | Some (n, rest) \<Rightarrow> Some (JNumber n, rest)))"

fun CreateDataProperty :: "credentials \<Rightarrow> string \<Rightarrow> jsval \<Rightarrow> credentials" where
  "CreateDataProperty [] k v = [(k, v)]"
| "CreateDataProperty ((k', v') # ps) k v =
     (if k' = k then (k, v) # ps else (k', v') # CreateDataProperty ps k v)"

definition parse_member :: "string \<Rightarrow> ((string \<times> jsval) \<times> string) option" where
  "parse_member s =
     (case skip_ws s of
        [] \<Rightarrow> None
      | q # r \<Rightarrow>
          if q \<noteq> CHR 0x22 then None
          else (case parse_chars r of
                  None \<Rightarrow> None
                | Some (k, r1) \<Rightarrow>
                    (case skip_ws r1 of
                       [] \<Rightarrow> None
                     | col # r2 \<Rightarrow>
                         if col \<noteq> CHR '':'' then None
                         else (case parse_value (skip_ws r2) of
                                 None \<Rightarrow> None
                               | Some (v, r3) \<Rightarrow> Some ((k, v), skip_ws r3)))))"

lemma skip_ws_length: "length (skip_ws s) \<le> length s"
  by (simp add: skip_ws_def length_dropWhile_le)

lemma parse_digits_length: "parse_digits s = Some (n, rest) \<Longrightarrow> length rest \<le> length s"
  by (auto simp: parse_digits_def Let_def length_dropWhile_le split: if_splits)

lemma parse_number_length: "parse_number s = Some (n, rest) \<Longrightarrow> length rest \<le> length s"
  unfolding parse_number_def
  by (auto split: list.splits if_splits option.splits dest!: parse_digits_length)

lemma parse_value_length: "parse_value s = Some (v, rest) \<Longrightarrow> length rest \<le> length s"
  unfolding parse_value_def
  by (auto split: list.splits if_splits option.splits
           dest!: parse_number_length parse_chars_length)

lemma parse_member_length:
  assumes "parse_member s = Some (kv, rest)"
  shows "length rest < length s"
proof -
  from assms obtain r k r1 r2 v r3 where
    a: "skip_ws s = CHR 0x22 # r" and b: "parse_chars r = Some (k, r1)"
    and c: "skip_ws r1 = CHR '':'' # r2" and d: "parse_value (skip_ws r2) = Some (v, r3)"
    and e: "rest = skip_ws r3"
    unfolding parse_member_def
    by (auto split: list.splits if_splits option.splits)
  have "length rest \<le> length r3" using e skip_ws_length by simp
  also have "\<dots> \<le> length (skip_ws r2)" using parse_value_length [OF d] .
  also have "\<dots> \<le> length r2" by (rule skip_ws_length)
  also have "\<dots> < length (skip_ws r1)" using c by simp
  also have "\<dots> \<le> length r1" by (rule skip_ws_length)
  also have "\<dots> < length r" using parse_chars_length [OF b] .
  also have "\<dots> < length (skip_ws s)" using a by simp
  also have "\<dots> \<le> length s" by (rule skip_ws_length)
  finally show ?thesis .
qed

function parse_members :: "credentials \<Rightarrow> string \<Rightarrow> credentials option" where
  "parse_members acc s =
     (case parse_member s of
        None \<Rightarrow> None
      | Some ((k, v), r) \<Rightarrow>
          (case r of
             [] \<Rightarrow> None
           | c # r' \<Rightarrow>
               if c = CHR '','' then parse_members (CreateDataProperty acc k v) r'
               else if c = CHR ''}'' then
                 (if skip_ws r' = [] then Some (CreateDataProperty acc k v) else None)
               else None))"
  by pat_completeness auto
termination
  by (relation "measure (\<lambda>(acc, s). length s)") (auto dest: parse_member_length)

declare parse_members.simps [simp del]

definition parse_object :: "string \<Rightarrow> credentials option" where
  "parse_object text =
     (case skip_ws text of
        [] \<Rightarrow> None
      | b # r \<Rightarrow>
          if b \<noteq> CHR ''{'' then None
          else (case skip_ws r of
                  [] \<Rightarrow> None
                | c # r' \<Rightarrow>
                    if c = CHR ''}'' then (if skip_ws r' = [] then Some [] else None)
                    else parse_members [] r))"

text \<open>The properties that hold a value, and the assignment of one parsed member.\<close>

definition defined :: "string \<times> jsval \<Rightarrow> bool" where
  "defined p = (snd p \<noteq> JUndefined)"

text \<open>What is left of a value in JSON: a Number that is not finite becomes \<open>null\<close>.\<close>

definition as_json :: "jsval \<Rightarrow> jsval" where
  "as_json v = (if isNonFinite v then JNull else v)"

definition kept :: "string \<times> jsval \<Rightarrow> string \<times> jsval" where
  "kept p = (fst p, as_json (snd p))"

definition assign :: "credentials \<Rightarrow> string \<times> jsval \<Rightarrow> credentials" where
  "assign acc p = CreateDataProperty acc (fst p) (snd p)"

definition no_digit_ahead :: "string \<Rightarrow> bool" where
  "no_digit_ahead rest = (case rest of [] \<Rightarrow> True | c # _ \<Rightarrow> \<not> isDigit c)"

section \<open>Constants of oauth2.ts\<close>

definition OAUTH_SCOPE :: "string list" where
  "OAUTH_SCOPE =
     [''https://www.googleapis.com/auth/cloud-platform'',
      ''https://www.googleapis.com/auth/userinfo.email'',
      ''https://www.googleapis.com/auth/userinfo.profile'']"

definition HTTP_REDIRECT :: nat where
  "HTTP_REDIRECT = 301"

definition SIGN_IN_SUCCESS_URL :: string where
  "SIGN_IN_SUCCESS_URL = ''https://developers.google.com/gemini-code-assist/auth_success_gemini''"

definition SIGN_IN_FAILURE_URL :: string where
  "SIGN_IN_FAILURE_URL = ''https://developers.google.com/gemini-code-assist/auth_failure_gemini''"

definition GEMINI_DIR :: string where
  "GEMINI_DIR = ''.gemini''"

definition CREDENTIAL_FILENAME :: string where
  "CREDENTIAL_FILENAME = ''oauth_creds.json''"

section \<open>The environment: process, runtime library and identity provider\<close>

text \<open>The options object handed to \<open>client.generateAuthUrl\<close>.\<close>

record GenerateAuthUrlOpts =
  redirect_uri :: string
  access_type :: string
  scope :: "string list"
  state :: string

text \<open>
  Everything oauth2.ts calls but does not define is a field of the environment, so that
  every theorem holds for every behaviour of the collaborators:
  the process environment variables, \<open>os.homedir\<close>, \<open>path.join\<close>, \<open>path.dirname\<close>,
  \<open>crypto.randomBytes(n).toString('hex')\<close>, the methods of \<open>OAuth2Client\<close>
  (\<open>generateAuthUrl\<close>, \<open>getToken\<close>, \<open>getAccessToken\<close>, \<open>getTokenInfo\<close>),
  \<open>new url.URL(u, base).searchParams\<close> with its \<open>get\<close>, and the failures of the three
  file-system calls (\<open>None\<close>: the call works at that path).
  \<open>getAccessToken\<close> gives the token (possibly none) and the credentials the client holds
  afterwards, since the library may refresh them.
  \<open>JSON_parse_other\<close> is what \<open>JSON.parse\<close> does with a text outside the fragment
  that \<open>parse_object\<close> reads.
\<close>

record env =
  HEADLESS_LOGIN :: "string option"
  GOOGLE_APPLICATION_CREDENTIALS :: "string option"
  os_homedir :: string
  path_join :: "string list \<Rightarrow> string"
  path_dirname :: "string \<Rightarrow> string"
  randomBytes_hex :: "nat \<Rightarrow> string"
  generateAuthUrl :: "GenerateAuthUrlOpts \<Rightarrow> string"
  getToken :: "string \<Rightarrow> string \<Rightarrow> error + credentials"
  getAccessToken :: "credentials \<Rightarrow> error + (string option \<times> credentials)"
  getTokenInfo :: "string \<Rightarrow> error + unit"
  URL_searchParams :: "string \<Rightarrow> string \<Rightarrow> error + (string \<Rightarrow> string option)"
  JSON_parse_other :: "string \<Rightarrow> error + credentials"
  mkdir_error :: "string \<Rightarrow> error option"
  writeFile_error :: "string \<Rightarrow> error option"
  readFile_error :: "string \<Rightarrow> error option"

section \<open>The state of a login attempt\<close>

text \<open>The calls made to the collaborators, in order.\<close>

datatype call =
    GetToken string string
  | SetCredentials credentials
  | GetAccessToken
  | GetTokenInfo string
  | Mkdir string
  | WriteFile string string
  | ReadFile string

text \<open>
  The files on disk (path to content), \<open>client.credentials\<close>, the log of calls,
  \<open>loginCompletePromise\<close>, whether the callback server still listens, and the response
  \<open>res\<close> of the callback request: the status and \<open>Location\<close> of \<open>writeHead\<close> and the
  body of \<open>end\<close>.
\<close>

record world =
  files :: "string \<rightharpoonup> string"
  client_credentials :: credentials
  calls :: "call list"
  loginComplete :: promise
  server_listening :: bool
  res_head :: "(nat \<times> string) option"
  res_ended :: "string option"

definition logcall :: "call \<Rightarrow> world \<Rightarrow> world" where
  "logcall c w = w\<lparr>calls := calls w @ [c]\<rparr>"

text \<open>The calls that create or write something on disk.\<close>

definition touches_cache :: "call \<Rightarrow> bool" where
  "touches_cache c = (case c of Mkdir d \<Rightarrow> True | WriteFile p s \<Rightarrow> True | _ \<Rightarrow> False)"

text \<open>
  The three file-system calls. A call fails when the environment says so for its path,
  and a failing call leaves the files as they were. \<open>mkdir\<close> makes a directory, which is
  no entry of \<open>files\<close>: the call is logged. \<open>writeFile\<close> replaces the whole content.
  \<open>readFile\<close> of a path without a file fails.
\<close>

definition fs_mkdir :: "env \<Rightarrow> string \<Rightarrow> world \<Rightarrow> (error + unit) \<times> world" where
  "fs_mkdir env dir w =
     (case mkdir_error env dir of
        Some e \<Rightarrow> (Inl e, logcall (Mkdir dir) w)
      | None \<Rightarrow> (Inr (), logcall (Mkdir dir) w))"

definition fs_writeFile :: "env \<Rightarrow> string \<Rightarrow> string \<Rightarrow> world \<Rightarrow> (error + unit) \<times> world" where
  "fs_writeFile env p content w =
     (case writeFile_error env p of
        Some e \<Rightarrow> (Inl e, logcall (WriteFile p content) w)
      | None \<Rightarrow> (Inr (), (logcall (WriteFile p content) w)\<lparr>files := (files w)(p \<mapsto> content)\<rparr>))"

definition fs_readFile :: "env \<Rightarrow> string \<Rightarrow> world \<Rightarrow> (error + string) \<times> world" where
  "fs_readFile env p w =
     (case files w p of
        None \<Rightarrow> (Inl (Error ''ENOENT: no such file or directory''), logcall (ReadFile p) w)
      | Some content \<Rightarrow>
          (case readFile_error env p of
             Some e \<Rightarrow> (Inl e, logcall (ReadFile p) w)
           | None \<Rightarrow> (Inr content, logcall (ReadFile p) w)))"

definition client_getToken :: "env \<Rightarrow> string \<Rightarrow> string \<Rightarrow> world \<Rightarrow> (error + credentials) \<times> world" where
  "client_getToken env code uri w = (getToken env code uri, logcall (GetToken code uri) w)"

definition client_setCredentials :: "credentials \<Rightarrow> world \<Rightarrow> world" where
  "client_setCredentials tokens w = (logcall (SetCredentials tokens) w)\<lparr>client_credentials := tokens\<rparr>"

definition res_writeHead :: "nat \<Rightarrow> string \<Rightarrow> world \<Rightarrow> world" where
  "res_writeHead status location w = w\<lparr>res_head := Some (status, location)\<rparr>"

definition res_end :: "string \<Rightarrow> world \<Rightarrow> world" where
  "res_end body w = w\<lparr>res_ended := Some body\<rparr>"

definition do_resolve :: "world \<Rightarrow> world" where
  "do_resolve w = w\<lparr>loginComplete := resolve (loginComplete w)\<rparr>"

definition do_reject :: "error \<Rightarrow> world \<Rightarrow> world" where
  "do_reject e w = w\<lparr>loginComplete := reject e (loginComplete w)\<rparr>"

text \<open>
  \<open>JSON.parse\<close> as oauth2.ts calls it: the result on the fragment, and the
  environment's answer (a \<open>SyntaxError\<close> or some object) on any other text.
\<close>

definition JSON_parse :: "env \<Rightarrow> string \<Rightarrow> error + credentials" where
  "JSON_parse env text =
     (case parse_object text of
        Some obj \<Rightarrow> Inr obj
      | None \<Rightarrow> JSON_parse_other env text)"

definition client_getAccessToken :: "env \<Rightarrow> world \<Rightarrow> (error + string option) \<times> world" where
  "client_getAccessToken env w =
     (case getAccessToken env (client_credentials w) of
        Inl e \<Rightarrow> (Inl e, logcall GetAccessToken w)
      | Inr (token, creds) \<Rightarrow> (Inr token, (logcall GetAccessToken w)\<lparr>client_credentials := creds\<rparr>))"

definition client_getTokenInfo :: "env \<Rightarrow> string \<Rightarrow> world \<Rightarrow> (error + unit) \<times> world" where
  "client_getTokenInfo env token w = (getTokenInfo env token, logcall (GetTokenInfo token) w)"

section \<open>The credential store\<close>

text \<open>\<open>getCachedCredentialPath\<close>: the fixed path under the home directory.\<close>

definition getCachedCredentialPath :: "env \<Rightarrow> string" where
  "getCachedCredentialPath env = path_join env [os_homedir env, GEMINI_DIR, CREDENTIAL_FILENAME]"

text \<open>
  \<open>cacheCredentials\<close>: create the parent directory, then write the serialized object.
  An exception of either call ends the function with it.
\<close>

definition cacheCredentials :: "env \<Rightarrow> credentials \<Rightarrow> world \<Rightarrow> (error + unit) \<times> world" where
  "cacheCredentials env creds w =
     (let filePath = getCachedCredentialPath env in
      case fs_mkdir env (path_dirname env filePath) w of
        (Inl e, w1) \<Rightarrow> (Inl e, w1)
      | (Inr _, w1) \<Rightarrow>
          (let credString = JSON_stringify creds
           in fs_writeFile env filePath credString w1))"

text \<open>
  The file \<open>loadCachedCredentials\<close> reads:
  \<open>process.env.GOOGLE_APPLICATION_CREDENTIALS || getCachedCredentialPath()\<close>; an unset
  and an empty variable are both falsy.
\<close>

definition keyFile :: "env \<Rightarrow> string" where
  "keyFile env =
     (case GOOGLE_APPLICATION_CREDENTIALS env of
        None \<Rightarrow> getCachedCredentialPath env
      | Some p \<Rightarrow> if p = [] then getCachedCredentialPath env else p)"

text \<open>The body of the \<open>try\<close> block of \<open>loadCachedCredentials\<close>.\<close>

definition loadCachedCredentials_try :: "env \<Rightarrow> world \<Rightarrow> (error + bool) \<times> world" where
  "loadCachedCredentials_try env w =
     (case fs_readFile env (keyFile env) w of
        (Inl e, w1) \<Rightarrow> (Inl e, w1)
      | (Inr creds, w1) \<Rightarrow>
          (case JSON_parse env creds of
             Inl e \<Rightarrow> (Inl e, w1)
           | Inr parsed \<Rightarrow>
               (let w2 = client_setCredentials parsed w1 in
                case client_getAccessToken env w2 of
                  (Inl e, w3) \<Rightarrow> (Inl e, w3)
                | (Inr token, w3) \<Rightarrow>
                    (case token of
                       None \<Rightarrow> (Inr False, w3)
                     | Some t \<Rightarrow>
                         if t = [] then (Inr False, w3)
                         else (case client_getTokenInfo env t w3 of
                                 (Inl e, w4) \<Rightarrow> (Inl e, w4)
                               | (Inr _, w4) \<Rightarrow> (Inr True, w4))))))"

text \<open>\<open>loadCachedCredentials\<close>: the \<open>catch\<close> turns every exception into \<open>false\<close>.\<close>

definition loadCachedCredentials :: "env \<Rightarrow> world \<Rightarrow> (error + bool) \<times> world" where
  "loadCachedCredentials env w =
     (case loadCachedCredentials_try env w of
        (Inl _, w') \<Rightarrow> (Inr False, w')
      | (Inr b, w') \<Rightarrow> (Inr b, w'))"

section \<open>authWithWeb\<close>

record HeadlessAuthStep =
  step_type :: string
  step_authUrl :: string

record OauthWebLogin =
  authUrl :: string
  headlessStep :: "HeadlessAuthStep option"

text \<open>
  What the closures of one login attempt capture: the nonce \<open>state\<close>, \<open>redirectUri\<close>,
  and the port handed to \<open>server.listen\<close> (none in the headless flow, which creates no
  server).
\<close>

record flow =
  flow_state :: string
  flow_redirectUri :: string
  flow_port :: "nat option"

text \<open>
  \<open>authWithWeb\<close> up to its \<open>return\<close>: the nonce, the authorization URL, the new pending
  promise and, in the interactive flow, the listening server.
\<close>

definition authWithWeb :: "env \<Rightarrow> world \<Rightarrow> OauthWebLogin \<times> flow \<times> world" where
  "authWithWeb env w =
     (let nonce = randomBytes_hex env 32 in
      if HEADLESS_LOGIN env = Some ''true'' then
        (let redirectUri = ''urn:ietf:wg:oauth:2.0:oob'';
             authUrlString = generateAuthUrl env
               \<lparr>redirect_uri = redirectUri, access_type = ''offline'',
                scope = OAUTH_SCOPE, state = nonce\<rparr>
         in (\<lparr>authUrl = authUrlString,
              headlessStep = Some \<lparr>step_type = ''NEEDS_CODE'', step_authUrl = authUrlString\<rparr>\<rparr>,
             \<lparr>flow_state = nonce, flow_redirectUri = redirectUri, flow_port = None\<rparr>,
             w\<lparr>loginComplete := Pending, server_listening := False,
               res_head := None, res_ended := None\<rparr>))
      else
        (let port = 8081;
             redirectUri = ''http://localhost:'' @ string_of_nat port @ ''/oauth2callback'';
             authUrl = generateAuthUrl env
               \<lparr>redirect_uri = redirectUri, access_type = ''offline'',
                scope = OAUTH_SCOPE, state = nonce\<rparr>
         in (\<lparr>authUrl = authUrl, headlessStep = None\<rparr>,
             \<lparr>flow_state = nonce, flow_redirectUri = redirectUri, flow_port = Some port\<rparr>,
             w\<lparr>loginComplete := Pending, server_listening := True,
               res_head := None, res_ended := None\<rparr>)))"

subsection \<open>The headless flow: exchangeCodeFunction\<close>

text \<open>The body of the \<open>try\<close> block of \<open>exchangeCodeFunction\<close>.\<close>

definition exchangeCode_try :: "env \<Rightarrow> string \<Rightarrow> string \<Rightarrow> world \<Rightarrow> (error + unit) \<times> world" where
  "exchangeCode_try env redirectUri code w =
     (case client_getToken env (trim code) redirectUri w of
        (Inl e, w1) \<Rightarrow> (Inl e, w1)
      | (Inr tokens, w1) \<Rightarrow>
          (let w2 = client_setCredentials tokens w1 in
           case cacheCredentials env (client_credentials w2) w2 of
             (Inl e, w3) \<Rightarrow> (Inl e, w3)
           | (Inr _, w3) \<Rightarrow> (Inr (), do_resolve w3)))"

text \<open>
  \<open>exchangeCodeFunction\<close>: \<open>Inl\<close> is the error it throws. \<open>!code\<close> holds of the empty
  string only, a \<open>string\<close> being never null.
\<close>

definition exchangeCodeFunction :: "env \<Rightarrow> string \<Rightarrow> string \<Rightarrow> world \<Rightarrow> (error + unit) \<times> world" where
  "exchangeCodeFunction env redirectUri code w =
     (if code = [] \<or> trim code = [] then
        (let err = Error ''No authorization code provided.''
         in (Inl err, do_reject err w))
      else
        (case exchangeCode_try env redirectUri code w of
           (Inr _, w') \<Rightarrow> (Inr (), w')
         | (Inl e, w') \<Rightarrow>
             (let err = Error (''Error exchanging authorization code: '' @ message e)
              in (Inl err, do_reject err w'))))"

subsection \<open>The interactive flow: the callback server\<close>

text \<open>A query parameter is truthy when it is present and not empty.\<close>

definition truthy :: "string option \<Rightarrow> bool" where
  "truthy v = (case v of None \<Rightarrow> False | Some s \<Rightarrow> s \<noteq> [])"

text \<open>
  The first test of the request handler:
  \<open>!req.url || req.url.indexOf('/oauth2callback') === -1\<close>.
\<close>

definition isUnexpectedRequest :: "string option \<Rightarrow> bool" where
  "isUnexpectedRequest req_url =
     (case req_url of
        None \<Rightarrow> True
      | Some u \<Rightarrow> u = [] \<or> indexOf u ''/oauth2callback'' = - 1)"

text \<open>\<open>'Unexpected request: ' + req.url\<close>: an undefined URL prints as \<open>undefined\<close>.\<close>

definition show_url :: "string option \<Rightarrow> string" where
  "show_url req_url = (case req_url of None \<Rightarrow> ''undefined'' | Some u \<Rightarrow> u)"

text \<open>A query value in a template literal or as an argument: \<open>null\<close> prints as \<open>null\<close>.\<close>

definition param :: "string option \<Rightarrow> string" where
  "param v = (case v of None \<Rightarrow> ''null'' | Some s \<Rightarrow> s)"

text \<open>
  The body of the \<open>try\<close> block of the request handler. The closure variables
  \<open>state\<close>, \<open>redirectUri\<close> and \<open>port\<close> are the parameters \<open>nonce\<close>,
  \<open>redirectUri\<close> and \<open>port\<close>.
\<close>

definition handler_try ::
  "env \<Rightarrow> string \<Rightarrow> string \<Rightarrow> nat \<Rightarrow> string option \<Rightarrow> world \<Rightarrow> (error + unit) \<times> world" where
  "handler_try env nonce redirectUri port req_url w =
     (if isUnexpectedRequest req_url then
        (Inr (), do_reject (Error (''Unexpected request: '' @ show_url req_url))
                   (res_end [] (res_writeHead HTTP_REDIRECT SIGN_IN_FAILURE_URL w)))
      else
        (case URL_searchParams env (show_url req_url) (''http://localhost:'' @ string_of_nat port) of
           Inl e \<Rightarrow> (Inl e, w)
         | Inr qs \<Rightarrow>
             if truthy (qs ''error'') then
               (Inr (), do_reject (Error (''Error during authentication: '' @ param (qs ''error'')))
                          (res_end [] (res_writeHead HTTP_REDIRECT SIGN_IN_FAILURE_URL w)))
             else if qs ''state'' \<noteq> Some nonce then
               (Inr (), do_reject (Error ''State mismatch. Possible CSRF attack.'')
                          (res_end ''State mismatch. Possible CSRF attack.''
                            (res_writeHead HTTP_REDIRECT SIGN_IN_FAILURE_URL w)))
             else if truthy (qs ''code'') then
               (case client_getToken env (param (qs ''code'')) redirectUri w of
                  (Inl e, w1) \<Rightarrow> (Inl e, w1)
                | (Inr tokens, w1) \<Rightarrow>
                    (let w2 = client_setCredentials tokens w1 in
                     case cacheCredentials env (client_credentials w2) w2 of
                       (Inl e, w3) \<Rightarrow> (Inl e, w3)
                     | (Inr _, w3) \<Rightarrow>
                         (Inr (), do_resolve
                                    (res_end [] (res_writeHead HTTP_REDIRECT SIGN_IN_SUCCESS_URL w3)))))
             else
               (Inr (), do_reject (Error ''No code found in request'')
                          (res_end [] (res_writeHead HTTP_REDIRECT SIGN_IN_FAILURE_URL w)))))"

text \<open>
  The request handler: the \<open>try\<close> block, the \<open>catch\<close> that answers if no header went out
  and rejects with the exception, and the \<open>finally\<close> that closes the server.
\<close>

definition requestHandler ::
  "env \<Rightarrow> string \<Rightarrow> string \<Rightarrow> nat \<Rightarrow> string option \<Rightarrow> world \<Rightarrow> world" where
  "requestHandler env nonce redirectUri port req_url w =
     (case handler_try env nonce redirectUri port req_url w of
        (Inr _, w1) \<Rightarrow> w1\<lparr>server_listening := False\<rparr>
      | (Inl e, w1) \<Rightarrow>
          (let w2 = (if res_head w1 = None
                     then res_end [] (res_writeHead HTTP_REDIRECT SIGN_IN_FAILURE_URL w1)
                     else w1)
           in (do_reject e w2)\<lparr>server_listening := False\<rparr>))"

text \<open>The \<open>'error'\<close> listener of the server, as when the port is in use.\<close>

definition server_on_error :: "error \<Rightarrow> world \<Rightarrow> world" where
  "server_on_error e w =
     (do_reject (Error (''HTTP server error: '' @ message e)) w)\<lparr>server_listening := False\<rparr>"

text \<open>
  The path of a request target in the words of the specification: the part before the
  query and the fragment.
\<close>

definition request_path :: "string \<Rightarrow> string" where
  "request_path u = takeWhile (\<lambda>c. c \<noteq> CHR ''?'' \<and> c \<noteq> CHR ''#'') u"

section \<open>A concrete environment\<close>

text \<open>
  One environment on which the functions can be run: a POSIX \<open>path.join\<close> and
  \<open>path.dirname\<close> on normalized paths, a query-string reader for request targets
  without percent escapes, a token endpoint that rejects the code \<open>bad\<close>, and a file
  system whose calls all work.
\<close>

fun split_on :: "char \<Rightarrow> string \<Rightarrow> string list" where
  "split_on sep [] = [[]]"
| "split_on sep (c # cs) =
     (if c = sep then [] # split_on sep cs
      else (case split_on sep cs of
              [] \<Rightarrow> [[c]]
            | x # xs \<Rightarrow> (c # x) # xs))"

definition query_of :: "string \<Rightarrow> string" where
  "query_of u =
     takeWhile (\<lambda>c. c \<noteq> CHR ''#'') (drop 1 (dropWhile (\<lambda>c. c \<noteq> CHR ''?'') u))"

definition query_pair :: "string \<Rightarrow> string \<times> string" where
  "query_pair kv =
     (takeWhile (\<lambda>c. c \<noteq> CHR ''='') kv, drop 1 (dropWhile (\<lambda>c. c \<noteq> CHR ''='') kv))"

definition simple_searchParams :: "string \<Rightarrow> string \<Rightarrow> error + (string \<Rightarrow> string option)" where
  "simple_searchParams u base =
     Inr (map_of (map query_pair (filter (\<lambda>kv. kv \<noteq> []) (split_on (CHR ''&'') (query_of u)))))"

definition posix_dirname :: "string \<Rightarrow> string" where
  "posix_dirname p = rev (drop 1 (dropWhile (\<lambda>c. c \<noteq> CHR ''/'') (rev p)))"

definition demo_getToken :: "string \<Rightarrow> string \<Rightarrow> error + credentials" where
  "demo_getToken code uri =
     (if code = ''bad'' then Inl (Error ''invalid_grant'')
      else Inr [(''access_token'', JString (''ya29.'' @ code)),
                (''refresh_token'', JString ''1//0g''),
                (''token_type'', JString ''Bearer''),
                (''expiry_date'', JNumber (safe_integer 1750000000000))])"

definition demo_getAccessToken :: "credentials \<Rightarrow> error + (string option \<times> credentials)" where
  "demo_getAccessToken c =
     (case get_field c ''access_token'' of
        JString t \<Rightarrow> Inr (Some t, c)
      | _ \<Rightarrow> Inl (Error ''No refresh token is set.''))"

definition demo_env :: env where
  "demo_env =
     \<lparr>HEADLESS_LOGIN = None,
      GOOGLE_APPLICATION_CREDENTIALS = None,
      os_homedir = ''/home/user'',
      path_join = join ''/'',
      path_dirname = posix_dirname,
      randomBytes_hex = (\<lambda>n. replicate (2 * n) (CHR ''a'')),
      generateAuthUrl = (\<lambda>opts. ''https://accounts.google.com/o/oauth2/v2/auth?redirect_uri=''
                           @ redirect_uri opts @ ''&state='' @ state opts),
      getToken = demo_getToken,
      getAccessToken = demo_getAccessToken,
      getTokenInfo = (\<lambda>t. if t = ''revoked'' then Inl (Error ''invalid_token'') else Inr ()),
      URL_searchParams = simple_searchParams,
      JSON_parse_other = (\<lambda>t. Inl (Error ''SyntaxError'')),
      mkdir_error = (\<lambda>p. None),
      writeFile_error = (\<lambda>p. None),
      readFile_error = (\<lambda>p. None)\<rparr>"

text \<open>The world before a login attempt: no file, a new client, nothing called yet.\<close>

definition world0 :: world where
  "world0 =
     \<lparr>files = Map.empty, client_credentials = [], calls = [],
      loginComplete = Pending, server_listening = True,
      res_head = None, res_ended = None\<rparr>"

text \<open>The world after a first headless exchange, with the code \<open>4/first\<close>.\<close>

definition after_first_exchange :: world where
  "after_first_exchange =
     snd (exchangeCodeFunction demo_env ''urn:ietf:wg:oauth:2.0:oob'' ''4/first'' world0)"

text \<open>The concrete environment with the credential file overridden.\<close>

definition override_env :: env where
  "override_env = demo_env\<lparr>GOOGLE_APPLICATION_CREDENTIALS := Some ''/etc/keys/sa.json''\<rparr>"

section \<open>The JSON round trip\<close>

subsection \<open>Digits\<close>

lemma isDigit_digit: "(d::nat) < 10 \<Longrightarrow> isDigit (char_of (48 + d))"
  by (simp add: isDigit_def)

lemma string_of_nat_digits: "\<forall>c \<in> set (string_of_nat n). isDigit c"
proof (induction n rule: string_of_nat.induct)
  case (1 n)
  show ?case
  proof (cases "n < 10")
    case True
    then show ?thesis by (subst string_of_nat.simps) (simp add: isDigit_digit)
  next
    case False
    with 1 show ?thesis by (subst string_of_nat.simps) (simp add: isDigit_digit)
  qed
qed

lemma string_of_nat_nonempty: "string_of_nat n \<noteq> []"
  by (subst string_of_nat.simps) simp

lemma digits_val_snoc: "digits_val (ds @ [c]) = digits_val ds * 10 + (of_char c - 48)"
  by (simp add: digits_val_def)

lemma digits_val_string_of_nat: "digits_val (string_of_nat n) = n"
proof (induction n rule: string_of_nat.induct)
  case (1 n)
  show ?case
  proof (cases "n < 10")
    case True
    then show ?thesis by (subst string_of_nat.simps) (simp add: digits_val_def)
  next
    case False
    with 1 have "digits_val (string_of_nat (n div 10)) = n div 10" by simp
    with False show ?thesis
      by (subst string_of_nat.simps) (simp add: digits_val_snoc)
  qed
qed

lemma string_of_nat_hd: "0 < n \<Longrightarrow> hd (string_of_nat n) \<noteq> CHR ''0''"
proof (induction n rule: string_of_nat.induct)
  case (1 n)
  show ?case
  proof (cases "n < 10")
    case True
    have "of_char (char_of (48 + n) :: char) = 48 + n" using True by simp
    moreover have "of_char (CHR ''0'') = (48::nat)" by simp
    ultimately have "char_of (48 + n) \<noteq> CHR ''0''" using "1.prems" by force
    with True show ?thesis by (subst string_of_nat.simps) simp
  next
    case False
    then have "0 < n div 10" by simp
    with 1 False have "hd (string_of_nat (n div 10)) \<noteq> CHR ''0''" by simp
    with False show ?thesis
      by (subst string_of_nat.simps) (simp add: string_of_nat_nonempty)
  qed
qed

lemma string_of_nat_length1: "1 < length (string_of_nat n) \<Longrightarrow> 0 < n"
  by (cases "n = 0") (simp_all add: string_of_nat.simps)

lemma takeWhile_digits:
  "no_digit_ahead rest \<Longrightarrow> takeWhile isDigit (string_of_nat n @ rest) = string_of_nat n"
  using string_of_nat_digits [of n]
  by (cases rest) (simp_all add: no_digit_ahead_def takeWhile_append2)

lemma dropWhile_digits:
  "no_digit_ahead rest \<Longrightarrow> dropWhile isDigit (string_of_nat n @ rest) = rest"
  using string_of_nat_digits [of n]
  by (cases rest) (simp_all add: no_digit_ahead_def dropWhile_append2)

lemma parse_digits_string_of_nat:
  assumes "no_digit_ahead rest"
  shows "parse_digits (string_of_nat n @ rest) = Some (n, rest)"
  using string_of_nat_hd [of n] string_of_nat_length1 [of n]
  by (auto simp add: parse_digits_def Let_def takeWhile_digits [OF assms]
      dropWhile_digits [OF assms] string_of_nat_nonempty digits_val_string_of_nat)

lemma string_of_nat_Cons: "\<exists>c cs. string_of_nat n = c # cs \<and> isDigit c"
  using string_of_nat_digits [of n] string_of_nat_nonempty [of n]
  by (cases "string_of_nat n") auto

lemma minus_not_digit: "\<not> isDigit (CHR ''-'')"
  by (simp add: isDigit_def)

lemma int_of_safe_integer: "isSafeInteger i \<Longrightarrow> int_of_safe (safe_integer i) = i"
  by transfer simp

lemma safe_integer_int_of: "safe_integer (int_of_safe n) = n"
  by transfer simp

lemma int_of_safe_range: "isSafeInteger (int_of_safe n)"
  by transfer simp

lemma parse_number_string_of_int:
  assumes "no_digit_ahead rest"
  shows "parse_number (string_of_int (int_of_safe n) @ rest) = Some (n, rest)"
proof -
  define i where "i = int_of_safe n"
  have s: "isSafeInteger i" and n: "safe_integer i = n"
    by (simp_all add: i_def int_of_safe_range safe_integer_int_of)
  show ?thesis
  proof (cases "i < 0")
    case True
    then have "int (nat (- i)) = - i" "nat (- i) \<noteq> 0" by simp_all
    with True s n show ?thesis
      by (simp add: i_def [symmetric] parse_number_def string_of_int_def
          parse_digits_string_of_nat [OF assms])
  next
    case False
    obtain c cs where c: "string_of_nat (nat i) = c # cs" "isDigit c"
      using string_of_nat_Cons by blast
    then have "c \<noteq> CHR ''-''" using minus_not_digit by auto
    moreover have "parse_digits (c # cs @ rest) = Some (nat i, rest)"
      using parse_digits_string_of_nat [OF assms, of "nat i"] c by simp
    ultimately show ?thesis using False c s n
      by (simp add: i_def [symmetric] parse_number_def string_of_int_def)
  qed
qed

subsection \<open>Strings\<close>

lemma char_eqI: "(of_char c :: nat) = of_char d \<Longrightarrow> c = d"
  by (metis char_of_char)

lemma hex_val_hex_digit: "n < 16 \<Longrightarrow> hex_val (hex_digit n) = Some n"
  by (simp add: hex_val_def hex_digit_def Let_def)

lemma parse_escape_simple:
  "e \<noteq> CHR ''u'' \<Longrightarrow> unescape e = Some ch \<Longrightarrow> parse_escape (e # X) = Some (ch, X)"
  by (simp add: parse_escape_def)

lemma parse_escape_u00:
  assumes "n < 32"
  shows "parse_escape (CHR ''u'' # CHR ''0'' # CHR ''0'' # hex_digit (n div 16) # hex_digit (n mod 16) # X)
         = Some (char_of n, X)"
proof -
  have z: "hex_val (CHR ''0'') = Some 0" by (simp add: hex_val_def)
  have a: "hex_val (hex_digit (n div 16)) = Some (n div 16)"
    using assms by (intro hex_val_hex_digit) simp
  have b: "hex_val (hex_digit (n mod 16)) = Some (n mod 16)"
    by (intro hex_val_hex_digit) simp
  show ?thesis using assms by (simp add: parse_escape_def z a b)
qed

lemma parse_chars_QuoteJSONChar:
  "parse_chars (QuoteJSONChar c @ X) =
     (case parse_chars X of None \<Rightarrow> None | Some (s, r) \<Rightarrow> Some (c # s, r))"
proof -
  define n :: nat where "n = of_char c"
  have c: "c = char_of n" by (simp add: n_def)
  consider (b) "n = 8" | (t) "n = 9" | (n) "n = 10" | (f) "n = 12" | (r) "n = 13"
    | (q) "n = 34" | (bs) "n = 92"
    | (u) "n < 32" "n \<notin> {8, 9, 10, 12, 13}"
    | (plain) "\<not> n < 32" "n \<noteq> 34" "n \<noteq> 92"
    by auto
  then show ?thesis
  proof cases
    case b
    then have "c = CHR 0x08" by (intro char_eqI) (simp add: n_def [symmetric])
    then show ?thesis
      by (simp add: QuoteJSONChar_def parse_escape_simple unescape_def split: option.splits)
  next
    case t
    then have "c = CHR 0x09" by (intro char_eqI) (simp add: n_def [symmetric])
    then show ?thesis
      by (simp add: QuoteJSONChar_def parse_escape_simple unescape_def split: option.splits)
  next
    case n
    then have "c = CHR 0x0A" by (intro char_eqI) (simp add: n_def [symmetric])
    then show ?thesis
      by (simp add: QuoteJSONChar_def parse_escape_simple unescape_def split: option.splits)
  next
    case f
    then have "c = CHR 0x0C" by (intro char_eqI) (simp add: n_def [symmetric])
    then show ?thesis
      by (simp add: QuoteJSONChar_def parse_escape_simple unescape_def split: option.splits)
  next
    case r
    then have "c = CHR 0x0D" by (intro char_eqI) (simp add: n_def [symmetric])
    then show ?thesis
      by (simp add: QuoteJSONChar_def parse_escape_simple unescape_def split: option.splits)
  next
    case q
    then have "c = CHR 0x22" by (intro char_eqI) (simp add: n_def [symmetric])
    then show ?thesis
      by (simp add: QuoteJSONChar_def parse_escape_simple unescape_def split: option.splits)
  next
    case bs
    then have "c = CHR 0x5C" by (intro char_eqI) (simp add: n_def [symmetric])
    then show ?thesis
      by (simp add: QuoteJSONChar_def parse_escape_simple unescape_def split: option.splits)
  next
    case u
    then have q: "QuoteJSONChar c =
        [CHR 0x5C, CHR ''u'', CHR ''0'', CHR ''0'', hex_digit (n div 16), hex_digit (n mod 16)]"
      by (simp add: QuoteJSONChar_def n_def [symmetric] Let_def)
    show ?thesis
      by (simp add: q parse_escape_u00 [OF u(1)] c [symmetric] split: option.splits)
  next
    case plain
    then have q: "QuoteJSONChar c = [c]"
      by (simp add: QuoteJSONChar_def n_def [symmetric] Let_def)
    have "c \<noteq> CHR 0x22" "c \<noteq> CHR 0x5C" using plain n_def by auto
    then show ?thesis using plain(1)
      by (simp add: q n_def [symmetric] split: option.splits)
  qed
qed

lemma parse_chars_quoted:
  "parse_chars (concat (map QuoteJSONChar s) @ CHR 0x22 # rest) = Some (s, rest)"
  by (induction s) (simp_all add: parse_chars_QuoteJSONChar)

subsection \<open>Values and members\<close>

lemma not_ws_skip: "\<not> isJSONWhiteSpace c \<Longrightarrow> skip_ws (c # cs) = c # cs"
  by (simp add: skip_ws_def)

lemma ws_skip: "isJSONWhiteSpace c \<Longrightarrow> skip_ws (c # cs) = skip_ws cs"
  by (simp add: skip_ws_def)

lemma digit_facts:
  assumes "isDigit c"
  shows "c \<noteq> CHR 0x22" "c \<noteq> CHR ''n''" "c \<noteq> CHR ''t''" "c \<noteq> CHR ''f''"
    "\<not> isJSONWhiteSpace c"
  using assms by (auto simp: isDigit_def isJSONWhiteSpace_def)

lemma string_of_int_Cons:
  "\<exists>c cs. string_of_int i = c # cs \<and> (c = CHR ''-'' \<or> isDigit c)"
  using string_of_nat_Cons [of "nat i"] by (auto simp: string_of_int_def)

lemma parse_value_number:
  assumes "no_digit_ahead rest"
  shows "parse_value (string_of_int (int_of_safe n) @ rest) = Some (JNumber n, rest)"
proof -
  obtain c cs where c: "string_of_int (int_of_safe n) = c # cs" "c = CHR ''-'' \<or> isDigit c"
    using string_of_int_Cons by blast
  then have ne: "c \<noteq> CHR 0x22" "c \<noteq> CHR ''n''" "c \<noteq> CHR ''t''" "c \<noteq> CHR ''f''"
    using digit_facts by auto
  have "parse_number (c # cs @ rest) = Some (n, rest)"
    using parse_number_string_of_int [OF assms, of n] c by simp
  then show ?thesis using c ne by (simp add: parse_value_def)
qed

lemma parse_value_serialized:
  assumes "SerializeJSONProperty v = Some strP" and "no_digit_ahead rest"
  shows "parse_value (strP @ rest) = Some (as_json v, rest)"
proof (cases v)
  case JUndefined
  with assms show ?thesis by simp
next
  case JNull
  with assms show ?thesis by (auto simp: parse_value_def as_json_def)
next
  case (JBool b)
  with assms show ?thesis by (cases b) (auto simp: parse_value_def as_json_def)
next
  case (JNumber i)
  with assms show ?thesis by (auto simp: parse_value_number as_json_def)
next
  case (JNonFinite x)
  with assms show ?thesis by (auto simp: parse_value_def as_json_def)
next
  case (JString str)
  with assms show ?thesis
    by (auto simp: parse_value_def QuoteJSONString_def parse_chars_quoted as_json_def)
qed

lemma serialized_not_ws:
  assumes "SerializeJSONProperty v = Some strP"
  shows "skip_ws (strP @ rest) = strP @ rest"
proof (cases v)
  case JUndefined
  with assms show ?thesis by simp
next
  case JNull
  with assms show ?thesis by (auto simp: skip_ws_def isJSONWhiteSpace_def)
next
  case (JBool b)
  with assms show ?thesis by (cases b) (auto simp: skip_ws_def isJSONWhiteSpace_def)
next
  case (JNumber i)
  obtain c cs where c: "string_of_int (int_of_safe i) = c # cs" "c = CHR ''-'' \<or> isDigit c"
    using string_of_int_Cons by blast
  then have "\<not> isJSONWhiteSpace c"
    using digit_facts(5) by (auto simp: isJSONWhiteSpace_def)
  with JNumber assms c show ?thesis by (auto simp: not_ws_skip)
next
  case (JNonFinite x)
  with assms show ?thesis by (auto simp: skip_ws_def isJSONWhiteSpace_def)
next
  case (JString str)
  with assms show ?thesis
    by (auto simp: QuoteJSONString_def skip_ws_def isJSONWhiteSpace_def)
qed

lemma parse_member_serialized:
  assumes "SerializeJSONProperty v = Some strP" and "no_digit_ahead rest"
  shows "parse_member (QuoteJSONString k @ '': '' @ strP @ rest)
         = Some ((k, as_json v), skip_ws rest)"
proof -
  have q: "QuoteJSONString k @ '': '' @ strP @ rest
        = CHR 0x22 # concat (map QuoteJSONChar k) @ CHR 0x22 # ('': '' @ strP @ rest)"
    by (simp add: QuoteJSONString_def)
  have a: "skip_ws (CHR 0x22 # X) = CHR 0x22 # X" for X
    by (simp add: skip_ws_def isJSONWhiteSpace_def)
  have b: "skip_ws ('': '' @ strP @ rest) = CHR '':'' # CHR '' '' # strP @ rest"
    by (simp add: skip_ws_def isJSONWhiteSpace_def)
  have c: "skip_ws (CHR '' '' # strP @ rest) = strP @ rest"
    using serialized_not_ws [OF assms(1)] by (simp add: ws_skip isJSONWhiteSpace_def)
  show ?thesis
    unfolding q parse_member_def a
    by (simp add: parse_chars_quoted b c parse_value_serialized [OF assms] del: append.simps)
qed

subsection \<open>Objects\<close>

lemma CreateDataProperty_fresh:
  "k \<notin> fst ` set acc \<Longrightarrow> CreateDataProperty acc k v = acc @ [(k, v)]"
  by (induction acc) auto

lemma foldl_assign_distinct:
  "distinct (map fst (acc @ fs)) \<Longrightarrow> foldl assign acc fs = acc @ fs"
proof (induction fs arbitrary: acc)
  case Nil
  then show ?case by simp
next
  case (Cons p fs)
  from Cons.prems have "fst p \<notin> fst ` set acc" by auto
  then have a: "assign acc p = acc @ [p]"
    by (simp add: assign_def CreateDataProperty_fresh)
  from Cons.prems have "distinct (map fst ((acc @ [p]) @ fs))" by simp
  from Cons.IH [OF this] a show ?case by simp
qed

lemma SerializeJSONObject_Nil_iff:
  "(SerializeJSONObject indent obj = []) = (filter defined obj = [])"
  by (induction obj) (auto simp: defined_def split: option.splits elim: SerializeJSONProperty.elims)

lemma parse_member_ws: "isJSONWhiteSpace w \<Longrightarrow> parse_member (w # s) = parse_member s"
  by (simp add: parse_member_def ws_skip)

lemma parse_member_indent:
  "parse_member (CHR 0x0A # CHR '' '' # CHR '' '' # s) = parse_member s"
  by (simp add: parse_member_ws isJSONWhiteSpace_def)

lemma parse_members_serialized:
  assumes "SerializeJSONObject ''  '' obj \<noteq> []"
  shows "parse_members acc
           (CHR 0x0A # ''  '' @ join (CHR '','' # CHR 0x0A # ''  '') (SerializeJSONObject ''  '' obj)
              @ [CHR 0x0A, CHR ''}''])
         = Some (foldl assign acc (map kept (filter defined obj)))"
  using assms
proof (induction obj arbitrary: acc)
  case Nil
  then show ?case by simp
next
  case (Cons p obj)
  obtain k v where p: "p = (k, v)" by (cases p)
  show ?case
  proof (cases "SerializeJSONProperty v")
    case None
    then have "v = JUndefined" by (cases v) auto
    with Cons p None show ?thesis by (simp add: defined_def)
  next
    case (Some strP)
    then have d: "defined p" by (auto simp: p defined_def)
    let ?m = "QuoteJSONString k @ '': '' @ strP"
    let ?rest = "SerializeJSONObject ''  '' obj"
    have ser: "SerializeJSONObject ''  '' (p # obj) = ?m # ?rest"
      by (simp add: p Some)
    show ?thesis
    proof (cases ?rest)
      case Nil
      then have f: "filter defined obj = []" by (simp add: SerializeJSONObject_Nil_iff)
      have nd: "no_digit_ahead [CHR 0x0A, CHR ''}'']"
        by (simp add: no_digit_ahead_def isDigit_def)
      have m: "parse_member (QuoteJSONString k @ '': '' @ strP @ [CHR 0x0A, CHR ''}''])
            = Some ((k, as_json v), ''}'')"
        using parse_member_serialized [OF Some nd, of k]
        by (simp add: skip_ws_def isJSONWhiteSpace_def)
      have shape: "CHR 0x0A # ''  '' @ join (CHR '','' # CHR 0x0A # ''  '')
                (SerializeJSONObject ''  '' (p # obj)) @ [CHR 0x0A, CHR ''}'']
            = CHR 0x0A # CHR '' '' # CHR '' '' # (?m @ [CHR 0x0A, CHR ''}''])"
        unfolding ser Nil by simp
      have rhs: "foldl assign acc (map kept (filter defined (p # obj))) = assign acc (kept p)"
        using d f by simp
      show ?thesis
        unfolding shape rhs
        by (subst parse_members.simps)
           (simp add: parse_member_indent m assign_def kept_def p skip_ws_def del: append.simps)
    next
      case (Cons m' ms)
      let ?tail = "CHR 0x0A # ''  '' @ join (CHR '','' # CHR 0x0A # ''  '') ?rest
              @ [CHR 0x0A, CHR ''}'']"
      have ne: "?rest \<noteq> []" using Cons by simp
      have nd: "no_digit_ahead (CHR '','' # ?tail)"
        by (simp add: no_digit_ahead_def isDigit_def)
      have m: "parse_member (QuoteJSONString k @ '': '' @ strP @ CHR '','' # ?tail)
            = Some ((k, as_json v), CHR '','' # ?tail)"
        using parse_member_serialized [OF Some nd, of k]
        by (simp add: skip_ws_def isJSONWhiteSpace_def)
      have j: "join (CHR '','' # CHR 0x0A # ''  '') (?m # ?rest)
           = ?m @ (CHR '','' # CHR 0x0A # ''  '') @ join (CHR '','' # CHR 0x0A # ''  '') ?rest"
        using Cons by simp
      have shape: "CHR 0x0A # ''  '' @ join (CHR '','' # CHR 0x0A # ''  '') (?m # ?rest)
              @ [CHR 0x0A, CHR ''}'']
            = CHR 0x0A # CHR '' '' # CHR '' '' # (?m @ CHR '','' # ?tail)"
        unfolding j by simp
      have ih: "parse_members (assign acc (kept p)) ?tail
            = Some (foldl assign (assign acc (kept p)) (map kept (filter defined obj)))"
        using Cons.IH [OF ne] .
      have rhs: "foldl assign acc (map kept (filter defined (p # obj)))
            = foldl assign (assign acc (kept p)) (map kept (filter defined obj))"
        using d by simp
      show ?thesis
        unfolding ser shape rhs ih [symmetric]
        by (subst parse_members.simps)
           (simp add: parse_member_indent m assign_def kept_def p del: append.simps)
    qed
  qed
qed

lemma SerializeJSONObject_hd:
  "SerializeJSONObject indent obj = m # ms \<Longrightarrow> \<exists>X. m = CHR 0x22 # X"
  by (induction obj) (auto simp: QuoteJSONString_def split: option.splits)

lemma join_Cons: "join sep (m # ms) = m @ (if ms = [] then [] else sep @ join sep ms)"
  by (cases ms) simp_all

lemma map_fst_kept: "map fst (map kept ps) = map fst ps"
  by (induction ps) (simp_all add: kept_def)

lemma foldl_assign_filter:
  assumes "distinct (map fst obj)"
  shows "foldl assign [] (map kept (filter defined obj)) = map kept (filter defined obj)"
proof -
  have "distinct (map fst (map kept (filter defined obj)))"
    unfolding map_fst_kept using assms by (simp add: distinct_map_filter)
  then show ?thesis using foldl_assign_distinct [of "[]"] by simp
qed

lemma parse_object_stringify_kept:
  assumes "distinct (map fst obj)"
  shows "parse_object (JSON_stringify obj) = Some (map kept (filter defined obj))"
proof (cases "SerializeJSONObject ''  '' obj")
  case Nil
  then have "filter defined obj = []" by (simp add: SerializeJSONObject_Nil_iff)
  with Nil show ?thesis
    by (simp add: JSON_stringify_def parse_object_def skip_ws_def isJSONWhiteSpace_def)
next
  case (Cons m ms)
  then obtain X where m: "m = CHR 0x22 # X" using SerializeJSONObject_hd by blast
  let ?r = "CHR 0x0A # ''  '' @ join (CHR '','' # CHR 0x0A # ''  '') (SerializeJSONObject ''  '' obj)
              @ [CHR 0x0A, CHR ''}'']"
  have s: "JSON_stringify obj = CHR ''{'' # ?r"
    using Cons by (simp add: JSON_stringify_def)
  have ne: "SerializeJSONObject ''  '' obj \<noteq> []" using Cons by simp
  have "\<exists>Y. skip_ws ?r = CHR 0x22 # Y"
    unfolding Cons join_Cons m by (simp add: skip_ws_def isJSONWhiteSpace_def)
  then obtain Y where y: "skip_ws ?r = CHR 0x22 # Y" by blast
  have a: "skip_ws (CHR ''{'' # ?r) = CHR ''{'' # ?r"
    by (simp add: skip_ws_def isJSONWhiteSpace_def)
  have "parse_object (CHR ''{'' # ?r) = parse_members [] ?r"
    by (simp only: parse_object_def a list.case y) simp
  also have "\<dots> = Some (foldl assign [] (map kept (filter defined obj)))"
    by (rule parse_members_serialized [OF ne])
  finally show ?thesis unfolding s by (simp add: foldl_assign_filter [OF assms])
qed

lemma kept_finite:
  "\<forall>p \<in> set obj. \<not> isNonFinite (snd p) \<Longrightarrow> map kept obj = obj"
  by (induction obj) (simp_all add: kept_def as_json_def)

lemma parse_object_stringify:
  assumes "distinct (map fst obj)" and "\<forall>p \<in> set obj. \<not> isNonFinite (snd p)"
  shows "parse_object (JSON_stringify obj) = Some (filter defined obj)"
proof -
  from assms(2) have "\<forall>p \<in> set (filter defined obj). \<not> isNonFinite (snd p)" by simp
  then have "map kept (filter defined obj) = filter defined obj" by (rule kept_finite)
  with parse_object_stringify_kept [OF assms(1)] show ?thesis by simp
qed



section \<open>The callback receiver\<close>

lemma indexOf_from_sublist: "(indexOf_from i s pat = - 1) = (\<not> sublist pat s)"
proof (induction s arbitrary: i)
  case Nil
  then show ?case by simp
next
  case (Cons c cs)
  then show ?case by (auto simp: sublist_Cons_right)
qed

lemma indexOf_sublist: "(indexOf s pat = - 1) = (\<not> sublist pat s)"
  by (simp add: indexOf_def indexOf_from_sublist)

lemma isUnexpectedRequest_Some:
  "isUnexpectedRequest (Some u) = (\<not> sublist ''/oauth2callback'' u)"
  by (cases u) (auto simp: isUnexpectedRequest_def indexOf_sublist)

lemmas world_ops =
  logcall_def res_writeHead_def res_end_def do_resolve_def do_reject_def
  client_getToken_def client_setCredentials_def

text \<open>
  C10: the \<open>error\<close> query parameter is inspected before the state check. A request on the
  callback path with a non-empty \<open>error\<close> parameter fails the attempt with
  \<open>Error during authentication: <error>\<close>, whatever its \<open>state\<close> parameter is, also
  one that differs from the nonce; the answer is the redirect to the failure page and no
  collaborator is called. (\<open>reject e Pending = Rejected e\<close>; a settled promise stays.)
\<close>

theorem provider_error_wins_over_state_check:
  assumes "indexOf u ''/oauth2callback'' \<noteq> - 1"
    and "URL_searchParams env u (''http://localhost:'' @ string_of_nat port) = Inr qs"
    and "qs ''error'' = Some err"
    and "err \<noteq> []"
  shows "loginComplete (requestHandler env nonce redirectUri port (Some u) w)
           = reject (Error (''Error during authentication: '' @ err)) (loginComplete w)
       \<and> res_head (requestHandler env nonce redirectUri port (Some u) w)
           = Some (301, SIGN_IN_FAILURE_URL)
       \<and> calls (requestHandler env nonce redirectUri port (Some u) w) = calls w"
proof -
  from assms(1) have "\<not> isUnexpectedRequest (Some u)"
    by (simp add: isUnexpectedRequest_Some indexOf_sublist)
  then show ?thesis using assms(2-4)
    by (simp add: requestHandler_def handler_try_def show_url_def param_def truthy_def
        world_ops HTTP_REDIRECT_def reject_def)
qed

text \<open>The request carries a forged \<open>state\<close> and is still reported as the provider's error.\<close>

theorem provider_error_wins_over_state_check_witness:
  "indexOf ''/oauth2callback?error=access_denied&state=forged'' ''/oauth2callback'' \<noteq> - 1
   \<and> URL_searchParams demo_env ''/oauth2callback?error=access_denied&state=forged''
         (''http://localhost:'' @ string_of_nat 8081)
       = Inr (map_of [(''error'', ''access_denied''), (''state'', ''forged'')])
   \<and> map_of [(''error'', ''access_denied''), (''state'', ''forged'')] ''state'' \<noteq> Some ''n0nce''
   \<and> loginComplete (requestHandler demo_env ''n0nce'' ''http://localhost:8081/oauth2callback'' 8081
         (Some ''/oauth2callback?error=access_denied&state=forged'') world0)
       = Rejected (Error ''Error during authentication: access_denied'')"
proof -
  let ?u = "''/oauth2callback?error=access_denied&state=forged''"
  let ?qs = "map_of [(''error'', ''access_denied''), (''state'', ''forged'')]"
  have h1: "indexOf ?u ''/oauth2callback'' \<noteq> - 1"
    by (simp add: indexOf_def)
  have h2: "URL_searchParams demo_env ?u (''http://localhost:'' @ string_of_nat 8081) = Inr ?qs"
    by (simp add: demo_env_def simple_searchParams_def query_of_def query_pair_def)
  have h3: "?qs ''error'' = Some ''access_denied''" by simp
  have h4: "''access_denied'' \<noteq> []" by simp
  have p: "loginComplete world0 = Pending" by (simp add: world0_def)
  from provider_error_wins_over_state_check [OF h1 h2 h3 h4,
      of "''n0nce''" "''http://localhost:8081/oauth2callback''" world0] p
  have r: "loginComplete (requestHandler demo_env ''n0nce'' ''http://localhost:8081/oauth2callback''
             8081 (Some ?u) world0)
           = Rejected (Error ''Error during authentication: access_denied'')"
    by (simp add: reject_def)
  show ?thesis by (intro conjI) (rule h1, rule h2, simp, rule r)
qed

lemmas handler_unfold =
  requestHandler_def handler_try_def show_url_def param_def truthy_def world_ops
  HTTP_REDIRECT_def

text \<open>
  C5 as stated fails: the handler does not compare the path, it looks for
  \<open>/oauth2callback\<close> anywhere in the request target. The target below has the path
  \<open>/evil/oauth2callback\<close>, and the request is answered with the redirect to the success
  page and completes the login.
\<close>

theorem path_must_be_callback_counterexample:
  "request_path ''/evil/oauth2callback?code=ABC&state=n0nce'' \<noteq> ''/oauth2callback''
   \<and> res_head (requestHandler demo_env ''n0nce'' ''http://localhost:8081/oauth2callback'' 8081
         (Some ''/evil/oauth2callback?code=ABC&state=n0nce'') world0)
       = Some (301, SIGN_IN_SUCCESS_URL)
   \<and> loginComplete (requestHandler demo_env ''n0nce'' ''http://localhost:8081/oauth2callback'' 8081
         (Some ''/evil/oauth2callback?code=ABC&state=n0nce'') world0)
       = Fulfilled"
proof -
  let ?u = "''/evil/oauth2callback?code=ABC&state=n0nce''"
  have a: "\<not> isUnexpectedRequest (Some ?u)"
    by (simp add: isUnexpectedRequest_def indexOf_def)
  have b: "URL_searchParams demo_env ?u (''http://localhost:'' @ string_of_nat 8081)
        = Inr (map_of [(''code'', ''ABC''), (''state'', ''n0nce'')])"
    by (simp add: demo_env_def simple_searchParams_def query_of_def query_pair_def)
  have c: "getToken demo_env ''ABC'' ''http://localhost:8081/oauth2callback''
        = demo_getToken ''ABC'' ''http://localhost:8081/oauth2callback''"
    "mkdir_error demo_env = (\<lambda>p. None)" "writeFile_error demo_env = (\<lambda>p. None)"
    by (simp_all add: demo_env_def)
  have d: "\<exists>t. demo_getToken ''ABC'' ''http://localhost:8081/oauth2callback'' = Inr t"
    by (simp add: demo_getToken_def)
  then obtain t where t: "demo_getToken ''ABC'' ''http://localhost:8081/oauth2callback'' = Inr t"
    by blast
  show ?thesis using a b c t
    by (simp add: request_path_def handler_unfold cacheCredentials_def fs_mkdir_def
        fs_writeFile_def world0_def resolve_def Let_def)
qed

text \<open>
  C1 as stated fails: a callback request whose \<open>state\<close> differs from the nonce and that
  carries an \<open>error\<close> parameter fails with the provider's error, not with the
  state-mismatch error.
\<close>

theorem state_mismatch_error_counterexample:
  "URL_searchParams demo_env ''/oauth2callback?state=forged&error=server_error&code=XYZ''
       (''http://localhost:'' @ string_of_nat 8081)
     = Inr (map_of [(''state'', ''forged''), (''error'', ''server_error''), (''code'', ''XYZ'')])
   \<and> map_of [(''state'', ''forged''), (''error'', ''server_error''), (''code'', ''XYZ'')] ''state''
       \<noteq> Some ''n0nce''
   \<and> loginComplete (requestHandler demo_env ''n0nce'' ''http://localhost:8081/oauth2callback'' 8081
         (Some ''/oauth2callback?state=forged&error=server_error&code=XYZ'') world0)
       = Rejected (Error ''Error during authentication: server_error'')
   \<and> loginComplete (requestHandler demo_env ''n0nce'' ''http://localhost:8081/oauth2callback'' 8081
         (Some ''/oauth2callback?state=forged&error=server_error&code=XYZ'') world0)
       \<noteq> Rejected (Error ''State mismatch. Possible CSRF attack.'')"
proof -
  let ?u = "''/oauth2callback?state=forged&error=server_error&code=XYZ''"
  have a: "\<not> isUnexpectedRequest (Some ?u)"
    by (simp add: isUnexpectedRequest_def indexOf_def)
  have b: "URL_searchParams demo_env ?u (''http://localhost:'' @ string_of_nat 8081)
        = Inr (map_of [(''state'', ''forged''), (''error'', ''server_error''), (''code'', ''XYZ'')])"
    by (simp add: demo_env_def simple_searchParams_def query_of_def query_pair_def)
  have c: "loginComplete (requestHandler demo_env ''n0nce'' ''http://localhost:8081/oauth2callback''
             8081 (Some ?u) world0)
           = Rejected (Error ''Error during authentication: server_error'')"
    using a b by (simp add: handler_unfold world0_def reject_def)
  show ?thesis by (intro conjI) (rule b, simp, rule c, simp add: c)
qed

text \<open>
  C1, amended: for every callback request whose \<open>state\<close> parameter differs from the nonce
  (a missing one included), whatever its \<open>code\<close>, no collaborator is called (so no token
  exchange), no file changes, the answer is the redirect to the failure page and the
  server closes; the attempt fails with the state-mismatch error when the request has no
  non-empty \<open>error\<close> parameter, and with the provider's error when it has one.
\<close>

theorem state_mismatch_never_exchanges:
  assumes "indexOf u ''/oauth2callback'' \<noteq> - 1"
    and "URL_searchParams env u (''http://localhost:'' @ string_of_nat port) = Inr qs"
    and "qs ''state'' \<noteq> Some nonce"
  shows "calls (requestHandler env nonce redirectUri port (Some u) w) = calls w
       \<and> files (requestHandler env nonce redirectUri port (Some u) w) = files w
       \<and> res_head (requestHandler env nonce redirectUri port (Some u) w)
           = Some (301, SIGN_IN_FAILURE_URL)
       \<and> \<not> server_listening (requestHandler env nonce redirectUri port (Some u) w)
       \<and> (\<not> truthy (qs ''error'') \<longrightarrow>
            loginComplete (requestHandler env nonce redirectUri port (Some u) w)
              = reject (Error ''State mismatch. Possible CSRF attack.'') (loginComplete w)
          \<and> res_ended (requestHandler env nonce redirectUri port (Some u) w)
              = Some ''State mismatch. Possible CSRF attack.'')
       \<and> (truthy (qs ''error'') \<longrightarrow>
            loginComplete (requestHandler env nonce redirectUri port (Some u) w)
              = reject (Error (''Error during authentication: '' @ param (qs ''error'')))
                  (loginComplete w))"
proof -
  from assms(1) have "\<not> isUnexpectedRequest (Some u)"
    by (simp add: isUnexpectedRequest_Some indexOf_sublist)
  then show ?thesis using assms(2,3)
    by (simp add: handler_unfold)
qed

text \<open>
  A request with a forged \<open>state\<close> and a code: nothing is called.
\<close>

theorem state_mismatch_never_exchanges_witness:
  "indexOf ''/oauth2callback?code=STOLEN&state=forged'' ''/oauth2callback'' \<noteq> - 1
   \<and> URL_searchParams demo_env ''/oauth2callback?code=STOLEN&state=forged''
         (''http://localhost:'' @ string_of_nat 8081)
       = Inr (map_of [(''code'', ''STOLEN''), (''state'', ''forged'')])
   \<and> map_of [(''code'', ''STOLEN''), (''state'', ''forged'')] ''state'' \<noteq> Some ''n0nce''
   \<and> \<not> truthy (map_of [(''code'', ''STOLEN''), (''state'', ''forged'')] ''error'')
   \<and> calls (requestHandler demo_env ''n0nce'' ''http://localhost:8081/oauth2callback'' 8081
         (Some ''/oauth2callback?code=STOLEN&state=forged'') world0) = []
   \<and> loginComplete (requestHandler demo_env ''n0nce'' ''http://localhost:8081/oauth2callback'' 8081
         (Some ''/oauth2callback?code=STOLEN&state=forged'') world0)
       = Rejected (Error ''State mismatch. Possible CSRF attack.'')"
proof -
  let ?u = "''/oauth2callback?code=STOLEN&state=forged''"
  let ?qs = "map_of [(''code'', ''STOLEN''), (''state'', ''forged'')]"
  have h1: "indexOf ?u ''/oauth2callback'' \<noteq> - 1"
    by (simp add: indexOf_def)
  have h2: "URL_searchParams demo_env ?u (''http://localhost:'' @ string_of_nat 8081) = Inr ?qs"
    by (simp add: demo_env_def simple_searchParams_def query_of_def query_pair_def)
  have h3: "?qs ''state'' \<noteq> Some ''n0nce''" by simp
  have h4: "\<not> truthy (?qs ''error'')" by (simp add: truthy_def)
  note r = state_mismatch_never_exchanges [OF h1 h2 h3,
      of "''http://localhost:8081/oauth2callback''" world0]
  from r have c: "calls (requestHandler demo_env ''n0nce''
      ''http://localhost:8081/oauth2callback'' 8081 (Some ?u) world0) = []"
    by (simp add: world0_def)
  from r h4 have "loginComplete (requestHandler demo_env ''n0nce''
      ''http://localhost:8081/oauth2callback'' 8081 (Some ?u) world0)
      = reject (Error ''State mismatch. Possible CSRF attack.'') (loginComplete world0)"
    by blast
  then have l: "loginComplete (requestHandler demo_env ''n0nce''
      ''http://localhost:8081/oauth2callback'' 8081 (Some ?u) world0)
      = Rejected (Error ''State mismatch. Possible CSRF attack.'')"
    by (simp add: reject_def world0_def)
  show ?thesis by (intro conjI) (rule h1, rule h2, rule h3, rule h4, rule c, rule l)
qed

section \<open>The headless code channel\<close>

lemma trim_Nil_iff: "(trim s = []) = (\<forall>c \<in> set s. isWhiteSpace c)"
proof
  assume "trim s = []"
  then have a: "\<forall>x \<in> set (dropWhile isWhiteSpace s). isWhiteSpace x"
    by (simp add: trim_def dropWhile_eq_Nil_conv)
  have "dropWhile isWhiteSpace s = []"
  proof (rule ccontr)
    assume n: "dropWhile isWhiteSpace s \<noteq> []"
    then have "\<not> isWhiteSpace (hd (dropWhile isWhiteSpace s))" by (rule hd_dropWhile)
    moreover have "hd (dropWhile isWhiteSpace s) \<in> set (dropWhile isWhiteSpace s)"
      using n by simp
    ultimately show False using a by blast
  qed
  then show "\<forall>c \<in> set s. isWhiteSpace c" by (simp add: dropWhile_eq_Nil_conv)
next
  assume "\<forall>c \<in> set s. isWhiteSpace c"
  then have "dropWhile isWhiteSpace s = []" by (simp add: dropWhile_eq_Nil_conv)
  then show "trim s = []" by (simp add: trim_def del: dropWhile_eq_Nil_conv)
qed

lemmas exchange_unfold =
  exchangeCodeFunction_def exchangeCode_try_def cacheCredentials_def fs_mkdir_def
  fs_writeFile_def world_ops

text \<open>
  C4: for every code that is empty or consists of white space only,
  \<open>exchangeCodeFunction\<close> throws \<open>No authorization code provided.\<close>, rejects the shared
  promise with the same error (\<open>reject e Pending = Rejected e\<close>) and calls no
  collaborator: \<open>getToken\<close> is not reached and no file changes.
\<close>

theorem blank_code_never_reaches_token_endpoint:
  assumes "code = [] \<or> (\<forall>c \<in> set code. isWhiteSpace c)"
  shows "fst (exchangeCodeFunction env redirectUri code w)
           = Inl (Error ''No authorization code provided.'')
       \<and> loginComplete (snd (exchangeCodeFunction env redirectUri code w))
           = reject (Error ''No authorization code provided.'') (loginComplete w)
       \<and> calls (snd (exchangeCodeFunction env redirectUri code w)) = calls w
       \<and> files (snd (exchangeCodeFunction env redirectUri code w)) = files w"
proof -
  from assms have "code = [] \<or> trim code = []" by (auto simp: trim_Nil_iff)
  then show ?thesis
    by (auto simp add: exchangeCodeFunction_def do_reject_def Let_def)
qed

text \<open>
  The code made of a space, a tab and a line feed.
\<close>

theorem blank_code_never_reaches_token_endpoint_witness:
  "isWhiteSpace (CHR 0x20) \<and> isWhiteSpace (CHR 0x09) \<and> isWhiteSpace (CHR 0x0A)
   \<and> fst (exchangeCodeFunction demo_env ''urn:ietf:wg:oauth:2.0:oob'' [CHR 0x20, CHR 0x09, CHR 0x0A]
            world0)
       = Inl (Error ''No authorization code provided.'')
   \<and> loginComplete (snd (exchangeCodeFunction demo_env ''urn:ietf:wg:oauth:2.0:oob''
            [CHR 0x20, CHR 0x09, CHR 0x0A] world0))
       = Rejected (Error ''No authorization code provided.'')
   \<and> calls (snd (exchangeCodeFunction demo_env ''urn:ietf:wg:oauth:2.0:oob''
            [CHR 0x20, CHR 0x09, CHR 0x0A] world0)) = []"
proof -
  have h: "\<forall>c \<in> set [CHR 0x20, CHR 0x09, CHR 0x0A]. isWhiteSpace c"
    by (simp add: isWhiteSpace_def)
  then have h': "[CHR 0x20, CHR 0x09, CHR 0x0A] = [] \<or>
      (\<forall>c \<in> set [CHR 0x20, CHR 0x09, CHR 0x0A]. isWhiteSpace c)" by blast
  note r = blank_code_never_reaches_token_endpoint [OF h', of demo_env
      "''urn:ietf:wg:oauth:2.0:oob''" world0]
  from r have a: "fst (exchangeCodeFunction demo_env ''urn:ietf:wg:oauth:2.0:oob''
      [CHR 0x20, CHR 0x09, CHR 0x0A] world0) = Inl (Error ''No authorization code provided.'')"
    by blast
  from r have b: "loginComplete (snd (exchangeCodeFunction demo_env ''urn:ietf:wg:oauth:2.0:oob''
      [CHR 0x20, CHR 0x09, CHR 0x0A] world0)) = Rejected (Error ''No authorization code provided.'')"
    by (simp add: reject_def world0_def)
  from r have c: "calls (snd (exchangeCodeFunction demo_env ''urn:ietf:wg:oauth:2.0:oob''
      [CHR 0x20, CHR 0x09, CHR 0x0A] world0)) = []"
    by (simp add: world0_def)
  have ws: "isWhiteSpace (CHR 0x20)" "isWhiteSpace (CHR 0x09)" "isWhiteSpace (CHR 0x0A)"
    by (simp_all add: isWhiteSpace_def)
  show ?thesis by (intro conjI) (rule ws(1), rule ws(2), rule ws(3), rule a, rule b, rule c)
qed

lemma demo_getToken_ok:
  "code \<noteq> ''bad'' \<Longrightarrow> getToken demo_env code uri =
     Inr [(''access_token'', JString (''ya29.'' @ code)),
          (''refresh_token'', JString ''1//0g''),
          (''token_type'', JString ''Bearer''),
          (''expiry_date'', JNumber (safe_integer 1750000000000))]"
  by (simp add: demo_env_def demo_getToken_def)

lemma demo_fs_ok:
  "mkdir_error demo_env p = None" "writeFile_error demo_env p = None"
  "readFile_error demo_env p = None"
  by (simp_all add: demo_env_def)

lemma demo_path:
  "getCachedCredentialPath demo_env = ''/home/user/.gemini/oauth_creds.json''"
  by (simp add: getCachedCredentialPath_def demo_env_def GEMINI_DIR_def CREDENTIAL_FILENAME_def)

lemma exchangeCodeFunction_success:
  assumes "trim code \<noteq> []"
    and "getToken env (trim code) redirectUri = Inr tokens"
    and "mkdir_error env (path_dirname env (getCachedCredentialPath env)) = None"
    and "writeFile_error env (getCachedCredentialPath env) = None"
  shows "exchangeCodeFunction env redirectUri code w =
    (Inr (),
     w\<lparr>calls := calls w @ [GetToken (trim code) redirectUri, SetCredentials tokens,
                            Mkdir (path_dirname env (getCachedCredentialPath env)),
                            WriteFile (getCachedCredentialPath env) (JSON_stringify tokens)],
       client_credentials := tokens,
       files := (files w)(getCachedCredentialPath env \<mapsto> JSON_stringify tokens),
       loginComplete := resolve (loginComplete w)\<rparr>)"
proof -
  from assms(1) have "code \<noteq> []" by (auto simp: trim_def)
  then show ?thesis using assms
    by (simp add: exchange_unfold Let_def)
qed

lemma trim_plain: "s \<noteq> [] \<Longrightarrow> \<not> isWhiteSpace (hd s) \<Longrightarrow> \<not> isWhiteSpace (last s) \<Longrightarrow> trim s = s"
proof -
  assume a: "s \<noteq> []" "\<not> isWhiteSpace (hd s)" "\<not> isWhiteSpace (last s)"
  then have "dropWhile isWhiteSpace s = s" by (cases s) auto
  moreover have "dropWhile isWhiteSpace (rev s) = rev s"
    using a by (cases "rev s") (auto simp: last_rev [symmetric] hd_rev)
  ultimately show ?thesis by (simp add: trim_def)
qed

lemma JSON_stringify_inject:
  assumes "distinct (map fst a)" "distinct (map fst b)"
    and "\<forall>p \<in> set a. \<not> isNonFinite (snd p)" "\<forall>p \<in> set b. \<not> isNonFinite (snd p)"
    and "JSON_stringify a = JSON_stringify b"
  shows "filter defined a = filter defined b"
proof -
  have "parse_object (JSON_stringify a) = parse_object (JSON_stringify b)"
    using assms(5) by simp
  then show ?thesis
    by (simp add: parse_object_stringify [OF assms(1,3)] parse_object_stringify [OF assms(2,4)])
qed

lemma trim_demo_codes: "trim ''4/first'' = ''4/first''" "trim ''4/second'' = ''4/second''"
  by (rule trim_plain, simp_all add: isWhiteSpace_def)+

lemma after_first_exchange_facts:
  "loginComplete after_first_exchange = Fulfilled"
  "files after_first_exchange ''/home/user/.gemini/oauth_creds.json''
     = Some (JSON_stringify [(''access_token'', JString (''ya29.'' @ ''4/first'')),
          (''refresh_token'', JString ''1//0g''),
          (''token_type'', JString ''Bearer''),
          (''expiry_date'', JNumber (safe_integer 1750000000000))])"
proof -
  have n1: "trim ''4/first'' \<noteq> []" by (simp add: trim_demo_codes)
  have g1: "getToken demo_env (trim ''4/first'') ''urn:ietf:wg:oauth:2.0:oob''
     = Inr [(''access_token'', JString (''ya29.'' @ ''4/first'')),
          (''refresh_token'', JString ''1//0g''),
          (''token_type'', JString ''Bearer''),
          (''expiry_date'', JNumber (safe_integer 1750000000000))]"
    unfolding trim_demo_codes by (rule demo_getToken_ok) simp
  note s1 = exchangeCodeFunction_success [OF n1 g1 demo_fs_ok(1) demo_fs_ok(2), of world0]
  show "loginComplete after_first_exchange = Fulfilled"
    unfolding after_first_exchange_def s1 by (simp add: world0_def resolve_def)
  show "files after_first_exchange ''/home/user/.gemini/oauth_creds.json''
     = Some (JSON_stringify [(''access_token'', JString (''ya29.'' @ ''4/first'')),
          (''refresh_token'', JString ''1//0g''),
          (''token_type'', JString ''Bearer''),
          (''expiry_date'', JNumber (safe_integer 1750000000000))])"
    unfolding after_first_exchange_def s1 by (simp add: demo_path)
qed

text \<open>
  C6 as stated fails: \<open>exchangeCodeFunction\<close> has no guard against a second use. After a
  first exchange has resolved the promise, a call with another code that the token
  endpoint accepts returns normally, calls \<open>getToken\<close> again and overwrites the
  credential file.
\<close>

theorem reinvocation_after_success_counterexample:
  "loginComplete after_first_exchange = Fulfilled
   \<and> fst (exchangeCodeFunction demo_env ''urn:ietf:wg:oauth:2.0:oob'' ''4/second''
            after_first_exchange) = Inr ()
   \<and> GetToken ''4/second'' ''urn:ietf:wg:oauth:2.0:oob''
       \<in> set (calls (snd (exchangeCodeFunction demo_env ''urn:ietf:wg:oauth:2.0:oob'' ''4/second''
                 after_first_exchange)))
   \<and> files (snd (exchangeCodeFunction demo_env ''urn:ietf:wg:oauth:2.0:oob'' ''4/second''
                 after_first_exchange)) ''/home/user/.gemini/oauth_creds.json''
       \<noteq> files after_first_exchange ''/home/user/.gemini/oauth_creds.json''"
proof -
  let ?oob = "''urn:ietf:wg:oauth:2.0:oob''"
  let ?t1 = "[(''access_token'', JString (''ya29.'' @ ''4/first'')),
          (''refresh_token'', JString ''1//0g''),
          (''token_type'', JString ''Bearer''),
          (''expiry_date'', JNumber (safe_integer 1750000000000))]"
  let ?t2 = "[(''access_token'', JString (''ya29.'' @ ''4/second'')),
          (''refresh_token'', JString ''1//0g''),
          (''token_type'', JString ''Bearer''),
          (''expiry_date'', JNumber (safe_integer 1750000000000))]"
  have tr2: "trim ''4/second'' = ''4/second''" by (rule trim_demo_codes)
  have g2: "getToken demo_env (trim ''4/second'') ?oob = Inr ?t2"
    unfolding tr2 by (rule demo_getToken_ok) simp
  have n2: "trim ''4/second'' \<noteq> []" by (simp add: tr2)
  note w1 = after_first_exchange_facts(1)
  note f1 = after_first_exchange_facts(2)
  note s2 = exchangeCodeFunction_success [OF n2 g2 demo_fs_ok(1) demo_fs_ok(2),
      of after_first_exchange]
  have r2: "fst (exchangeCodeFunction demo_env ?oob ''4/second'' after_first_exchange) = Inr ()"
    by (simp add: s2)
  have c2: "GetToken ''4/second'' ?oob
       \<in> set (calls (snd (exchangeCodeFunction demo_env ?oob ''4/second'' after_first_exchange)))"
    by (simp add: s2 tr2)
  have f2: "files (snd (exchangeCodeFunction demo_env ?oob ''4/second'' after_first_exchange))
          ''/home/user/.gemini/oauth_creds.json'' = Some (JSON_stringify ?t2)"
    by (simp add: s2 demo_path)
  have "JSON_stringify ?t1 \<noteq> JSON_stringify ?t2"
  proof
    assume "JSON_stringify ?t1 = JSON_stringify ?t2"
    then have "filter defined ?t1 = filter defined ?t2"
      by (intro JSON_stringify_inject) simp_all
    then show False by (simp add: defined_def)
  qed
  with f1 f2 have d: "files (snd (exchangeCodeFunction demo_env ?oob ''4/second''
      after_first_exchange)) ''/home/user/.gemini/oauth_creds.json''
       \<noteq> files after_first_exchange ''/home/user/.gemini/oauth_creds.json''"
    by simp
  show ?thesis by (intro conjI) (rule w1, rule r2, rule c2, rule d)
qed

text \<open>
  C6, amended: once the promise is resolved, a later call of \<open>exchangeCodeFunction\<close>
  leaves it resolved. With an empty or white-space code the call is an error that makes
  no token exchange and changes no file. With any other code it makes a token exchange
  again, and when the endpoint accepts the code and the directory and file calls work, it
  returns normally and overwrites the credential file with the new tokens.
\<close>

theorem reinvocation_after_success:
  assumes "loginComplete w = Fulfilled"
  shows "loginComplete (snd (exchangeCodeFunction env redirectUri code w)) = Fulfilled
       \<and> ((\<forall>c \<in> set code. isWhiteSpace c) \<longrightarrow>
            fst (exchangeCodeFunction env redirectUri code w)
              = Inl (Error ''No authorization code provided.'')
          \<and> calls (snd (exchangeCodeFunction env redirectUri code w)) = calls w
          \<and> files (snd (exchangeCodeFunction env redirectUri code w)) = files w)
       \<and> (\<not> (\<forall>c \<in> set code. isWhiteSpace c) \<longrightarrow>
            take (Suc (length (calls w))) (calls (snd (exchangeCodeFunction env redirectUri code w)))
              = calls w @ [GetToken (trim code) redirectUri])
       \<and> (\<not> (\<forall>c \<in> set code. isWhiteSpace c)
            \<and> getToken env (trim code) redirectUri = Inr tokens
            \<and> mkdir_error env (path_dirname env (getCachedCredentialPath env)) = None
            \<and> writeFile_error env (getCachedCredentialPath env) = None \<longrightarrow>
            fst (exchangeCodeFunction env redirectUri code w) = Inr ()
          \<and> files (snd (exchangeCodeFunction env redirectUri code w))
              = (files w)(getCachedCredentialPath env \<mapsto> JSON_stringify tokens))"
proof (cases "\<forall>c \<in> set code. isWhiteSpace c")
  case True
  then have "trim code = []" by (simp add: trim_Nil_iff)
  with True assms show ?thesis
    by (simp add: exchangeCodeFunction_def do_reject_def reject_def Let_def)
next
  case False
  then have t: "trim code \<noteq> []" by (simp add: trim_Nil_iff)
  then have c: "code \<noteq> []" by (auto simp: trim_def)
  have a: "loginComplete (snd (exchangeCodeFunction env redirectUri code w)) = Fulfilled"
    using t c assms
    by (auto simp: exchange_unfold Let_def resolve_def reject_def
        split: sum.splits option.splits prod.splits)
  have b: "take (Suc (length (calls w))) (calls (snd (exchangeCodeFunction env redirectUri code w)))
              = calls w @ [GetToken (trim code) redirectUri]"
    using t c
    by (auto simp: exchange_unfold Let_def split: sum.splits option.splits prod.splits)
  have d: "fst (exchangeCodeFunction env redirectUri code w) = Inr ()
          \<and> files (snd (exchangeCodeFunction env redirectUri code w))
              = (files w)(getCachedCredentialPath env \<mapsto> JSON_stringify tokens)"
    if "getToken env (trim code) redirectUri = Inr tokens"
      "mkdir_error env (path_dirname env (getCachedCredentialPath env)) = None"
      "writeFile_error env (getCachedCredentialPath env) = None"
    using exchangeCodeFunction_success [OF t that, of w] by simp
  from False a b d show ?thesis by blast
qed

text \<open>
  The second code after the first exchange.
\<close>

theorem reinvocation_after_success_witness:
  "loginComplete after_first_exchange = Fulfilled
   \<and> \<not> (\<forall>c \<in> set ''4/second''. isWhiteSpace c)
   \<and> getToken demo_env (trim ''4/second'') ''urn:ietf:wg:oauth:2.0:oob''
       = Inr [(''access_token'', JString ''ya29.4/second''),
              (''refresh_token'', JString ''1//0g''),
              (''token_type'', JString ''Bearer''),
              (''expiry_date'', JNumber (safe_integer 1750000000000))]
   \<and> mkdir_error demo_env (path_dirname demo_env (getCachedCredentialPath demo_env)) = None
   \<and> writeFile_error demo_env (getCachedCredentialPath demo_env) = None
   \<and> loginComplete (snd (exchangeCodeFunction demo_env ''urn:ietf:wg:oauth:2.0:oob'' ''4/second''
         after_first_exchange)) = Fulfilled
   \<and> files (snd (exchangeCodeFunction demo_env ''urn:ietf:wg:oauth:2.0:oob'' ''4/second''
         after_first_exchange))
       = (files after_first_exchange)(getCachedCredentialPath demo_env \<mapsto>
            JSON_stringify [(''access_token'', JString ''ya29.4/second''),
              (''refresh_token'', JString ''1//0g''),
              (''token_type'', JString ''Bearer''),
              (''expiry_date'', JNumber (safe_integer 1750000000000))])"
proof -
  let ?t2 = "[(''access_token'', JString ''ya29.4/second''),
              (''refresh_token'', JString ''1//0g''),
              (''token_type'', JString ''Bearer''),
              (''expiry_date'', JNumber (safe_integer 1750000000000))]"
  have h1: "loginComplete after_first_exchange = Fulfilled"
    by (rule after_first_exchange_facts)
  have h2: "\<not> (\<forall>c \<in> set ''4/second''. isWhiteSpace c)"
    by (simp add: isWhiteSpace_def)
  have h3: "getToken demo_env (trim ''4/second'') ''urn:ietf:wg:oauth:2.0:oob'' = Inr ?t2"
    unfolding trim_demo_codes using demo_getToken_ok [of "''4/second''"] by simp
  have h4: "mkdir_error demo_env (path_dirname demo_env (getCachedCredentialPath demo_env)) = None"
    by (rule demo_fs_ok)
  have h5: "writeFile_error demo_env (getCachedCredentialPath demo_env) = None"
    by (rule demo_fs_ok)
  note r = reinvocation_after_success [OF h1, of demo_env "''urn:ietf:wg:oauth:2.0:oob''"
      "''4/second''" ?t2]
  from r have a: "loginComplete (snd (exchangeCodeFunction demo_env ''urn:ietf:wg:oauth:2.0:oob''
      ''4/second'' after_first_exchange)) = Fulfilled" by blast
  from r h2 h3 h4 h5 have b: "files (snd (exchangeCodeFunction demo_env
      ''urn:ietf:wg:oauth:2.0:oob'' ''4/second'' after_first_exchange))
       = (files after_first_exchange)(getCachedCredentialPath demo_env \<mapsto> JSON_stringify ?t2)"
    by blast
  show ?thesis by (intro conjI) (rule h1, rule h2, rule h3, rule h4, rule h5, rule a, rule b)
qed

section \<open>The authorization URL\<close>

lemma string_of_nat_8081: "string_of_nat 8081 = ''8081''"
  by (simp add: string_of_nat.simps) (auto intro!: char_eqI)

text \<open>
  C8: for every login attempt the authorization URL is generated from
  \<open>access_type=offline\<close>, the three fixed scopes, the nonce drawn for this attempt and
  the redirect URI of the chosen flow, which is also the one the later token exchange
  uses: \<open>http://localhost:8081/oauth2callback\<close> in the interactive flow, where the
  server listens on the same port 8081, and \<open>urn:ietf:wg:oauth:2.0:oob\<close> in the
  headless flow, where no server is started.
\<close>

theorem authorization_url_matches_flow:
  "authUrl (fst (authWithWeb env w))
     = generateAuthUrl env
         \<lparr>redirect_uri = flow_redirectUri (fst (snd (authWithWeb env w))),
          access_type = ''offline'',
          scope = [''https://www.googleapis.com/auth/cloud-platform'',
                   ''https://www.googleapis.com/auth/userinfo.email'',
                   ''https://www.googleapis.com/auth/userinfo.profile''],
          state = flow_state (fst (snd (authWithWeb env w)))\<rparr>
   \<and> flow_state (fst (snd (authWithWeb env w))) = randomBytes_hex env 32
   \<and> loginComplete (snd (snd (authWithWeb env w))) = Pending
   \<and> (HEADLESS_LOGIN env \<noteq> Some ''true'' \<longrightarrow>
        flow_redirectUri (fst (snd (authWithWeb env w))) = ''http://localhost:8081/oauth2callback''
      \<and> flow_port (fst (snd (authWithWeb env w))) = Some 8081
      \<and> server_listening (snd (snd (authWithWeb env w)))
      \<and> headlessStep (fst (authWithWeb env w)) = None)
   \<and> (HEADLESS_LOGIN env = Some ''true'' \<longrightarrow>
        flow_redirectUri (fst (snd (authWithWeb env w))) = ''urn:ietf:wg:oauth:2.0:oob''
      \<and> flow_port (fst (snd (authWithWeb env w))) = None
      \<and> \<not> server_listening (snd (snd (authWithWeb env w)))
      \<and> headlessStep (fst (authWithWeb env w))
          = Some \<lparr>step_type = ''NEEDS_CODE'',
                  step_authUrl = authUrl (fst (authWithWeb env w))\<rparr>)"
  by (simp add: authWithWeb_def Let_def OAUTH_SCOPE_def string_of_nat_8081)

text \<open>
  The interactive and the headless attempt in the concrete environment.
\<close>

theorem authorization_url_matches_flow_witness:
  "HEADLESS_LOGIN demo_env \<noteq> Some ''true''
   \<and> flow_redirectUri (fst (snd (authWithWeb demo_env world0)))
       = ''http://localhost:8081/oauth2callback''
   \<and> flow_port (fst (snd (authWithWeb demo_env world0))) = Some 8081
   \<and> HEADLESS_LOGIN (demo_env\<lparr>HEADLESS_LOGIN := Some ''true''\<rparr>) = Some ''true''
   \<and> flow_redirectUri (fst (snd (authWithWeb (demo_env\<lparr>HEADLESS_LOGIN := Some ''true''\<rparr>) world0)))
       = ''urn:ietf:wg:oauth:2.0:oob''
   \<and> flow_port (fst (snd (authWithWeb (demo_env\<lparr>HEADLESS_LOGIN := Some ''true''\<rparr>) world0)))
       = None"
proof -
  have h1: "HEADLESS_LOGIN demo_env \<noteq> Some ''true''" by (simp add: demo_env_def)
  have h2: "HEADLESS_LOGIN (demo_env\<lparr>HEADLESS_LOGIN := Some ''true''\<rparr>) = Some ''true''"
    by simp
  note i = authorization_url_matches_flow [of demo_env world0]
  note h = authorization_url_matches_flow [of "demo_env\<lparr>HEADLESS_LOGIN := Some ''true''\<rparr>" world0]
  from i h1 have a: "flow_redirectUri (fst (snd (authWithWeb demo_env world0)))
       = ''http://localhost:8081/oauth2callback''" by blast
  from i h1 have b: "flow_port (fst (snd (authWithWeb demo_env world0))) = Some 8081" by blast
  from h h2 have c: "flow_redirectUri (fst (snd (authWithWeb
       (demo_env\<lparr>HEADLESS_LOGIN := Some ''true''\<rparr>) world0))) = ''urn:ietf:wg:oauth:2.0:oob''"
    by blast
  from h h2 have d: "flow_port (fst (snd (authWithWeb
       (demo_env\<lparr>HEADLESS_LOGIN := Some ''true''\<rparr>) world0))) = None"
    by blast
  show ?thesis by (intro conjI) (rule h1, rule a, rule b, rule h2, rule c, rule d)
qed

section \<open>Cache hydration\<close>

lemmas load_unfold =
  loadCachedCredentials_def loadCachedCredentials_try_def fs_readFile_def
  client_getAccessToken_def client_getTokenInfo_def client_setCredentials_def logcall_def





section \<open>Saving and loading the credential file\<close>

lemma cacheCredentials_files:
  "files (snd (cacheCredentials env creds w)) =
     (if fst (cacheCredentials env creds w) = Inr ()
      then (files w)(getCachedCredentialPath env \<mapsto> JSON_stringify creds)
      else files w)"
  by (auto simp: cacheCredentials_def fs_mkdir_def fs_writeFile_def logcall_def Let_def
      split: option.splits)

lemma cacheCredentials_calls:
  "\<exists>new. calls (snd (cacheCredentials env creds w)) = calls w @ new
     \<and> (\<forall>c \<in> set new. c = Mkdir (path_dirname env (getCachedCredentialPath env))
            \<or> c = WriteFile (getCachedCredentialPath env) (JSON_stringify creds))"
  by (auto simp: cacheCredentials_def fs_mkdir_def fs_writeFile_def logcall_def Let_def
      split: option.splits)

lemma cacheCredentials_client:
  "client_credentials (snd (cacheCredentials env creds w)) = client_credentials w"
  by (auto simp: cacheCredentials_def fs_mkdir_def fs_writeFile_def logcall_def Let_def
      split: option.splits)

lemma loadCachedCredentials_result_depends:
  assumes "files w1 (keyFile env) = files w2 (keyFile env)"
  shows "fst (loadCachedCredentials env w1) = fst (loadCachedCredentials env w2)"
  using assms
  by (auto simp: load_unfold Let_def split: sum.splits option.splits prod.splits)

lemma loadCachedCredentials_reads_keyFile:
  "take (Suc (length (calls w))) (calls (snd (loadCachedCredentials env w)))
     = calls w @ [ReadFile (keyFile env)]"
  by (auto simp: load_unfold Let_def split: sum.splits option.splits prod.splits)

lemma cacheCredentials_attempt:
  "mkdir_error env (path_dirname env (getCachedCredentialPath env)) = None \<Longrightarrow>
     calls (snd (cacheCredentials env creds w))
       = calls w @ [Mkdir (path_dirname env (getCachedCredentialPath env)),
                    WriteFile (getCachedCredentialPath env) (JSON_stringify creds)]"
  by (auto simp: cacheCredentials_def fs_mkdir_def fs_writeFile_def logcall_def Let_def
      split: option.splits)

lemma cacheCredentials_succeeds_iff:
  "(fst (cacheCredentials env creds w) = Inr ())
     = (mkdir_error env (path_dirname env (getCachedCredentialPath env)) = None
        \<and> writeFile_error env (getCachedCredentialPath env) = None)"
  by (auto simp: cacheCredentials_def fs_mkdir_def fs_writeFile_def logcall_def Let_def
      split: option.splits)

text \<open>
  C9: \<open>cacheCredentials\<close> does not look at \<open>GOOGLE_APPLICATION_CREDENTIALS\<close>: it
  writes the fixed path made of the home directory, \<open>.gemini\<close> and
  \<open>oauth_creds.json\<close>, and no other file changes. \<open>loadCachedCredentials\<close> honours
  the variable: when it names another path, the load after a save reads that path, whose
  content the save has not changed, and gives what a load before the save would give.
  The save itself goes to the fixed path: once the directory is there, \<open>writeFile\<close> is
  called at that path with the serialised credentials; the save succeeds exactly when
  neither \<open>mkdir\<close> nor \<open>writeFile\<close> fails, and then the file at the fixed path holds
  the serialised credentials.
\<close>

theorem save_ignores_credentials_override:
  "cacheCredentials (env\<lparr>GOOGLE_APPLICATION_CREDENTIALS := override\<rparr>) creds w
     = cacheCredentials env creds w
   \<and> getCachedCredentialPath env = path_join env [os_homedir env, ''.gemini'', ''oauth_creds.json'']
   \<and> (\<forall>p. p \<noteq> getCachedCredentialPath env \<longrightarrow>
         files (snd (cacheCredentials env creds w)) p = files w p)
   \<and> (\<forall>q. GOOGLE_APPLICATION_CREDENTIALS env = Some q \<and> q \<noteq> []
          \<and> q \<noteq> getCachedCredentialPath env \<longrightarrow>
         keyFile env = q
       \<and> files (snd (cacheCredentials env creds w)) (keyFile env) = files w (keyFile env)
       \<and> take (Suc (length (calls (snd (cacheCredentials env creds w)))))
             (calls (snd (loadCachedCredentials env (snd (cacheCredentials env creds w)))))
           = calls (snd (cacheCredentials env creds w)) @ [ReadFile q]
       \<and> fst (loadCachedCredentials env (snd (cacheCredentials env creds w)))
           = fst (loadCachedCredentials env w))
   \<and> (mkdir_error env (path_dirname env (getCachedCredentialPath env)) = None \<longrightarrow>
         calls (snd (cacheCredentials env creds w))
           = calls w @ [Mkdir (path_dirname env (getCachedCredentialPath env)),
                        WriteFile (getCachedCredentialPath env) (JSON_stringify creds)])
   \<and> (fst (cacheCredentials env creds w) = Inr ())
       = (mkdir_error env (path_dirname env (getCachedCredentialPath env)) = None
          \<and> writeFile_error env (getCachedCredentialPath env) = None)
   \<and> (fst (cacheCredentials env creds w) = Inr () \<longrightarrow>
         files (snd (cacheCredentials env creds w))
           = (files w)(getCachedCredentialPath env \<mapsto> JSON_stringify creds)
       \<and> files (snd (cacheCredentials env creds w)) (getCachedCredentialPath env)
           = Some (JSON_stringify creds)
       \<and> WriteFile (getCachedCredentialPath env) (JSON_stringify creds)
           \<in> set (calls (snd (cacheCredentials env creds w))))
   \<and> (fst (cacheCredentials env creds w) \<noteq> Inr () \<longrightarrow>
         files (snd (cacheCredentials env creds w)) = files w)"
proof -
  have a: "cacheCredentials (env\<lparr>GOOGLE_APPLICATION_CREDENTIALS := override\<rparr>) creds w
     = cacheCredentials env creds w"
    by (simp add: cacheCredentials_def getCachedCredentialPath_def fs_mkdir_def fs_writeFile_def
        Let_def split: option.splits)
  have b: "getCachedCredentialPath env
      = path_join env [os_homedir env, ''.gemini'', ''oauth_creds.json'']"
    by (simp add: getCachedCredentialPath_def GEMINI_DIR_def CREDENTIAL_FILENAME_def)
  have c: "files (snd (cacheCredentials env creds w)) p = files w p"
    if "p \<noteq> getCachedCredentialPath env" for p
    using that by (simp add: cacheCredentials_files)
  have d: "keyFile env = q
       \<and> files (snd (cacheCredentials env creds w)) (keyFile env) = files w (keyFile env)
       \<and> take (Suc (length (calls (snd (cacheCredentials env creds w)))))
             (calls (snd (loadCachedCredentials env (snd (cacheCredentials env creds w)))))
           = calls (snd (cacheCredentials env creds w)) @ [ReadFile q]
       \<and> fst (loadCachedCredentials env (snd (cacheCredentials env creds w)))
           = fst (loadCachedCredentials env w)"
    if "GOOGLE_APPLICATION_CREDENTIALS env = Some q" "q \<noteq> []" "q \<noteq> getCachedCredentialPath env"
    for q
  proof -
    from that have k: "keyFile env = q" by (simp add: keyFile_def)
    with that(3) c have f: "files (snd (cacheCredentials env creds w)) (keyFile env)
        = files w (keyFile env)" by simp
    from k f loadCachedCredentials_result_depends [OF f]
      loadCachedCredentials_reads_keyFile [of "snd (cacheCredentials env creds w)" env]
    show ?thesis by simp
  qed
  have abcd: "cacheCredentials (env\<lparr>GOOGLE_APPLICATION_CREDENTIALS := override\<rparr>) creds w
     = cacheCredentials env creds w
   \<and> getCachedCredentialPath env = path_join env [os_homedir env, ''.gemini'', ''oauth_creds.json'']
   \<and> (\<forall>p. p \<noteq> getCachedCredentialPath env \<longrightarrow>
         files (snd (cacheCredentials env creds w)) p = files w p)
   \<and> (\<forall>q. GOOGLE_APPLICATION_CREDENTIALS env = Some q \<and> q \<noteq> []
          \<and> q \<noteq> getCachedCredentialPath env \<longrightarrow>
         keyFile env = q
       \<and> files (snd (cacheCredentials env creds w)) (keyFile env) = files w (keyFile env)
       \<and> take (Suc (length (calls (snd (cacheCredentials env creds w)))))
             (calls (snd (loadCachedCredentials env (snd (cacheCredentials env creds w)))))
           = calls (snd (cacheCredentials env creds w)) @ [ReadFile q]
       \<and> fst (loadCachedCredentials env (snd (cacheCredentials env creds w)))
           = fst (loadCachedCredentials env w))"
    using a b c d by blast
  have e: "mkdir_error env (path_dirname env (getCachedCredentialPath env)) = None \<longrightarrow>
         calls (snd (cacheCredentials env creds w))
           = calls w @ [Mkdir (path_dirname env (getCachedCredentialPath env)),
                        WriteFile (getCachedCredentialPath env) (JSON_stringify creds)]"
    by (simp add: cacheCredentials_attempt)
  have g: "(fst (cacheCredentials env creds w) = Inr ())
       = (mkdir_error env (path_dirname env (getCachedCredentialPath env)) = None
          \<and> writeFile_error env (getCachedCredentialPath env) = None)"
    by (rule cacheCredentials_succeeds_iff)
  have h: "fst (cacheCredentials env creds w) = Inr () \<longrightarrow>
         files (snd (cacheCredentials env creds w))
           = (files w)(getCachedCredentialPath env \<mapsto> JSON_stringify creds)
       \<and> files (snd (cacheCredentials env creds w)) (getCachedCredentialPath env)
           = Some (JSON_stringify creds)
       \<and> WriteFile (getCachedCredentialPath env) (JSON_stringify creds)
           \<in> set (calls (snd (cacheCredentials env creds w)))"
  proof
    assume ok: "fst (cacheCredentials env creds w) = Inr ()"
    then have m: "mkdir_error env (path_dirname env (getCachedCredentialPath env)) = None"
      by (simp add: cacheCredentials_succeeds_iff)
    from ok have f: "files (snd (cacheCredentials env creds w))
           = (files w)(getCachedCredentialPath env \<mapsto> JSON_stringify creds)"
      by (simp add: cacheCredentials_files)
    from f have f': "files (snd (cacheCredentials env creds w)) (getCachedCredentialPath env)
           = Some (JSON_stringify creds)" by simp
    have l: "WriteFile (getCachedCredentialPath env) (JSON_stringify creds)
           \<in> set (calls (snd (cacheCredentials env creds w)))"
      by (simp add: cacheCredentials_attempt [OF m])
    from f f' l show "files (snd (cacheCredentials env creds w))
           = (files w)(getCachedCredentialPath env \<mapsto> JSON_stringify creds)
       \<and> files (snd (cacheCredentials env creds w)) (getCachedCredentialPath env)
           = Some (JSON_stringify creds)
       \<and> WriteFile (getCachedCredentialPath env) (JSON_stringify creds)
           \<in> set (calls (snd (cacheCredentials env creds w)))" by (intro conjI)
  qed
  have i: "fst (cacheCredentials env creds w) \<noteq> Inr () \<longrightarrow>
         files (snd (cacheCredentials env creds w)) = files w"
    by (simp add: cacheCredentials_files)
  from abcd have a': "cacheCredentials (env\<lparr>GOOGLE_APPLICATION_CREDENTIALS := override\<rparr>) creds w
     = cacheCredentials env creds w" by (rule conjunct1)
  note b' = abcd [THEN conjunct2, THEN conjunct1]
  note c' = abcd [THEN conjunct2, THEN conjunct2, THEN conjunct1]
  note d' = abcd [THEN conjunct2, THEN conjunct2, THEN conjunct2]
  show ?thesis
    by (rule conjI [OF a' conjI [OF b' conjI [OF c' conjI [OF d' conjI [OF e
        conjI [OF g conjI [OF h i]]]]]]])
qed

lemma override_env_path:
  "getCachedCredentialPath override_env = ''/home/user/.gemini/oauth_creds.json''"
  by (simp add: override_env_def getCachedCredentialPath_def demo_env_def GEMINI_DIR_def
      CREDENTIAL_FILENAME_def)

lemma override_env_fs_ok:
  "mkdir_error override_env p = None" "writeFile_error override_env p = None"
  by (simp_all add: override_env_def demo_env_def)

text \<open>
  With the variable set to \<open>/etc/keys/sa.json\<close>, the save writes the file under the
  home directory and the next load, reading the other path, misses.
\<close>

theorem save_ignores_credentials_override_witness:
  "GOOGLE_APPLICATION_CREDENTIALS override_env = Some ''/etc/keys/sa.json''
   \<and> ''/etc/keys/sa.json'' \<noteq> []
   \<and> ''/etc/keys/sa.json'' \<noteq> getCachedCredentialPath override_env
   \<and> mkdir_error override_env (path_dirname override_env (getCachedCredentialPath override_env))
       = None
   \<and> writeFile_error override_env (getCachedCredentialPath override_env) = None
   \<and> fst (cacheCredentials override_env [(''access_token'', JString ''ya29.new'')] world0)
       = Inr ()
   \<and> calls (snd (cacheCredentials override_env [(''access_token'', JString ''ya29.new'')] world0))
       = calls world0
           @ [Mkdir (path_dirname override_env ''/home/user/.gemini/oauth_creds.json''),
              WriteFile ''/home/user/.gemini/oauth_creds.json''
                (JSON_stringify [(''access_token'', JString ''ya29.new'')])]
   \<and> files (snd (cacheCredentials override_env [(''access_token'', JString ''ya29.new'')] world0))
        ''/home/user/.gemini/oauth_creds.json''
       = Some (JSON_stringify [(''access_token'', JString ''ya29.new'')])
   \<and> keyFile override_env = ''/etc/keys/sa.json''
   \<and> files (snd (cacheCredentials override_env [(''access_token'', JString ''ya29.new'')] world0))
        (keyFile override_env) = None
   \<and> fst (loadCachedCredentials override_env
        (snd (cacheCredentials override_env [(''access_token'', JString ''ya29.new'')] world0)))
       = Inr False"
proof -
  let ?q = "''/etc/keys/sa.json''"
  let ?c = "[(''access_token'', JString ''ya29.new'')]"
  have h1: "GOOGLE_APPLICATION_CREDENTIALS override_env = Some ?q"
    by (simp add: override_env_def)
  have h2: "?q \<noteq> []" by simp
  have h3: "?q \<noteq> getCachedCredentialPath override_env" by (simp add: override_env_path)
  have m: "mkdir_error override_env
      (path_dirname override_env (getCachedCredentialPath override_env)) = None"
    by (rule override_env_fs_ok(1))
  have wr: "writeFile_error override_env (getCachedCredentialPath override_env) = None"
    by (rule override_env_fs_ok(2))
  note r = save_ignores_credentials_override [where env = override_env and override = None
      and creds = ?c and w = world0]
  note r4 = r [THEN conjunct2, THEN conjunct2, THEN conjunct2, THEN conjunct1, THEN spec,
      THEN mp, OF conjI [OF h1 conjI [OF h2 h3]]]
  note r5 = r [THEN conjunct2, THEN conjunct2, THEN conjunct2, THEN conjunct2, THEN conjunct1,
      THEN mp, OF m]
  note r6 = r [THEN conjunct2, THEN conjunct2, THEN conjunct2, THEN conjunct2, THEN conjunct2,
      THEN conjunct1]
  from r6 m wr have ok: "fst (cacheCredentials override_env ?c world0) = Inr ()" by simp
  note r7 = r [THEN conjunct2, THEN conjunct2, THEN conjunct2, THEN conjunct2, THEN conjunct2,
      THEN conjunct2, THEN conjunct1, THEN mp, OF ok]
  from r5 have log: "calls (snd (cacheCredentials override_env ?c world0))
       = calls world0
           @ [Mkdir (path_dirname override_env ''/home/user/.gemini/oauth_creds.json''),
              WriteFile ''/home/user/.gemini/oauth_creds.json'' (JSON_stringify ?c)]"
    unfolding override_env_path .
  from r7 [THEN conjunct2, THEN conjunct1]
  have saved: "files (snd (cacheCredentials override_env ?c world0))
      ''/home/user/.gemini/oauth_creds.json'' = Some (JSON_stringify ?c)"
    unfolding override_env_path .
  from r4 have k: "keyFile override_env = ?q" by (rule conjunct1)
  from r4 have "files (snd (cacheCredentials override_env ?c world0))
      (keyFile override_env) = files world0 (keyFile override_env)"
    by (rule conjunct2 [THEN conjunct1])
  then have unread: "files (snd (cacheCredentials override_env ?c world0))
      (keyFile override_env) = None" by (simp add: world0_def)
  from r4 have "fst (loadCachedCredentials override_env
      (snd (cacheCredentials override_env ?c world0)))
      = fst (loadCachedCredentials override_env world0)"
    by (rule conjunct2 [THEN conjunct2, THEN conjunct2])
  also have "\<dots> = Inr False"
    by (simp add: load_unfold k world0_def)
  finally have miss: "fst (loadCachedCredentials override_env
      (snd (cacheCredentials override_env ?c world0))) = Inr False" .
  show ?thesis
    by (intro conjI) (rule h1, rule h2, rule h3, rule m, rule wr, rule ok, rule log, rule saved,
        rule k, rule unread, rule miss)
qed



text \<open>
  The serialized text of a small object: two spaces of indentation, one member per line,
  the \<open>undefined\<close> member left out, the Number that is not finite written \<open>null\<close>.
\<close>

lemma JSON_stringify_example:
  "JSON_stringify [(''token_type'', JString ''Bearer''), (''id_token'', JUndefined),
                   (''expiry_date'', JNumber (safe_integer 42)), (''n'', JNonFinite NaN)]
   = ''{'' @ [CHR 0x0A] @ ''  '' @ [CHR 0x22] @ ''token_type'' @ [CHR 0x22] @ '': ''
       @ [CHR 0x22] @ ''Bearer'' @ [CHR 0x22] @ '','' @ [CHR 0x0A]
       @ ''  '' @ [CHR 0x22] @ ''expiry_date'' @ [CHR 0x22] @ '': 42'' @ '','' @ [CHR 0x0A]
       @ ''  '' @ [CHR 0x22] @ ''n'' @ [CHR 0x22] @ '': null'' @ [CHR 0x0A] @ ''}''"
proof -
  have n: "int_of_safe (safe_integer 42) = 42"
    by (simp add: int_of_safe_integer isSafeInteger_def MAX_SAFE_INTEGER_def)
  have d: "string_of_int 42 = ''42''"
    by (simp add: string_of_int_def string_of_nat.simps) (auto intro!: char_eqI)
  show ?thesis
    by (simp add: JSON_stringify_def QuoteJSONString_def QuoteJSONChar_def n d Let_def)
qed




section \<open>Failing attempts and the credential file\<close>

lemmas cache_unfold = cacheCredentials_def fs_mkdir_def fs_writeFile_def logcall_def

lemma cacheCredentials_cases:
  obtains (failed) e new where
      "cacheCredentials env c w = (Inl e, w\<lparr>calls := calls w @ new\<rparr>)"
      "\<forall>x \<in> set new. touches_cache x"
  | (saved)
      "cacheCredentials env c w =
         (Inr (), w\<lparr>calls := calls w @ [Mkdir (path_dirname env (getCachedCredentialPath env)),
                    WriteFile (getCachedCredentialPath env) (JSON_stringify c)],
                  files := (files w)(getCachedCredentialPath env \<mapsto> JSON_stringify c)\<rparr>)"
proof (cases "mkdir_error env (path_dirname env (getCachedCredentialPath env))")
  case (Some e)
  then have "cacheCredentials env c w
      = (Inl e, w\<lparr>calls := calls w @ [Mkdir (path_dirname env (getCachedCredentialPath env))]\<rparr>)"
    by (simp add: cache_unfold Let_def)
  then show ?thesis by (rule failed) (simp add: touches_cache_def)
next
  case None
  show ?thesis
  proof (cases "writeFile_error env (getCachedCredentialPath env)")
    case (Some e)
    with None have "cacheCredentials env c w
      = (Inl e, w\<lparr>calls := calls w @ [Mkdir (path_dirname env (getCachedCredentialPath env)),
                    WriteFile (getCachedCredentialPath env) (JSON_stringify c)]\<rparr>)"
      by (simp add: cache_unfold Let_def)
    then show ?thesis by (rule failed) (simp add: touches_cache_def)
  next
    case n: None
    with None show ?thesis by (intro saved) (simp add: cache_unfold Let_def)
  qed
qed

lemmas handler_core = requestHandler_def handler_try_def world_ops HTTP_REDIRECT_def

lemma handler_without_exchange:
  assumes "isUnexpectedRequest req_url
      \<or> (\<exists>e. URL_searchParams env (show_url req_url) (''http://localhost:'' @ string_of_nat port) = Inl e)
      \<or> (\<exists>qs. URL_searchParams env (show_url req_url) (''http://localhost:'' @ string_of_nat port) = Inr qs
            \<and> (truthy (qs ''error'') \<or> qs ''state'' \<noteq> Some nonce \<or> \<not> truthy (qs ''code'')))"
  shows "calls (requestHandler env nonce redirectUri port req_url w) = calls w
       \<and> files (requestHandler env nonce redirectUri port req_url w) = files w"
  using assms by (auto simp: handler_core)

lemma handler_with_exchange:
  assumes "\<not> isUnexpectedRequest req_url"
    and "URL_searchParams env (show_url req_url) (''http://localhost:'' @ string_of_nat port) = Inr qs"
    and "\<not> truthy (qs ''error'')" and "qs ''state'' = Some nonce" and "truthy (qs ''code'')"
  shows "requestHandler env nonce redirectUri port req_url w =
     (case getToken env (param (qs ''code'')) redirectUri of
        Inl e \<Rightarrow>
          (if res_head w = None
           then w\<lparr>calls := calls w @ [GetToken (param (qs ''code'')) redirectUri],
                  res_head := Some (301, SIGN_IN_FAILURE_URL), res_ended := Some [],
                  loginComplete := reject e (loginComplete w), server_listening := False\<rparr>
           else w\<lparr>calls := calls w @ [GetToken (param (qs ''code'')) redirectUri],
                  loginComplete := reject e (loginComplete w), server_listening := False\<rparr>)
      | Inr tokens \<Rightarrow>
          (case cacheCredentials env tokens
                  (w\<lparr>calls := calls w @ [GetToken (param (qs ''code'')) redirectUri,
                                         SetCredentials tokens],
                     client_credentials := tokens\<rparr>) of
             (Inl e, w3) \<Rightarrow>
               (if res_head w3 = None
                then w3\<lparr>res_head := Some (301, SIGN_IN_FAILURE_URL), res_ended := Some [],
                        loginComplete := reject e (loginComplete w3), server_listening := False\<rparr>
                else w3\<lparr>loginComplete := reject e (loginComplete w3), server_listening := False\<rparr>)
           | (Inr u, w3) \<Rightarrow>
               w3\<lparr>res_head := Some (301, SIGN_IN_SUCCESS_URL), res_ended := Some [],
                  loginComplete := resolve (loginComplete w3), server_listening := False\<rparr>))"
  using assms
  by (simp add: handler_core Let_def split: sum.splits prod.splits)

lemma handler_dichotomy:
  obtains (without)
      "calls (requestHandler env nonce redirectUri port req_url w) = calls w"
      "files (requestHandler env nonce redirectUri port req_url w) = files w"
  | (exchange) qs where
      "\<not> isUnexpectedRequest req_url"
      "URL_searchParams env (show_url req_url) (''http://localhost:'' @ string_of_nat port) = Inr qs"
      "\<not> truthy (qs ''error'')" "qs ''state'' = Some nonce" "truthy (qs ''code'')"
proof (cases "isUnexpectedRequest req_url")
  case True
  with handler_without_exchange [of req_url env port nonce redirectUri w] without
  show ?thesis by blast
next
  case nu: False
  show ?thesis
  proof (cases "URL_searchParams env (show_url req_url) (''http://localhost:'' @ string_of_nat port)")
    case (Inl e)
    with handler_without_exchange [of req_url env port nonce redirectUri w] without
    show ?thesis by blast
  next
    case (Inr qs)
    show ?thesis
    proof (cases "truthy (qs ''error'') \<or> qs ''state'' \<noteq> Some nonce \<or> \<not> truthy (qs ''code'')")
      case True
      with Inr handler_without_exchange [of req_url env port nonce redirectUri w] without
      show ?thesis by blast
    next
      case False
      with nu Inr exchange [of qs] show ?thesis by blast
    qed
  qed
qed

lemma handler_failure_keeps_files:
  assumes "loginComplete w = Pending"
    and "loginComplete (requestHandler env nonce redirectUri port req_url w) \<noteq> Fulfilled"
  shows "files (requestHandler env nonce redirectUri port req_url w) = files w"
proof (cases rule: handler_dichotomy [of env nonce redirectUri port req_url w])
  case without
  then show ?thesis by simp
next
  case (exchange qs)
  note h = handler_with_exchange [OF exchange, of redirectUri w]
  show ?thesis
  proof (cases "getToken env (param (qs ''code'')) redirectUri")
    case (Inl e)
    with h show ?thesis by simp
  next
    case (Inr tokens)
    let ?w2 = "w\<lparr>calls := calls w @ [GetToken (param (qs ''code'')) redirectUri,
                                         SetCredentials tokens],
                     client_credentials := tokens\<rparr>"
    show ?thesis
    proof (cases rule: cacheCredentials_cases [of env tokens ?w2])
      case (failed e new)
      with h Inr show ?thesis by simp
    next
      case saved
      with h Inr assms show ?thesis by (simp add: resolve_def)
    qed
  qed
qed

lemma handler_touch_needs_tokens:
  assumes "c \<in> set (drop (length (calls w))
              (calls (requestHandler env nonce redirectUri port req_url w)))"
    and "touches_cache c"
  shows "\<exists>code tokens. GetToken code redirectUri
            \<in> set (drop (length (calls w))
                 (calls (requestHandler env nonce redirectUri port req_url w)))
          \<and> getToken env code redirectUri = Inr tokens"
proof (cases rule: handler_dichotomy [of env nonce redirectUri port req_url w])
  case without
  with assms(1) show ?thesis by simp
next
  case (exchange qs)
  note h = handler_with_exchange [OF exchange, of redirectUri w]
  show ?thesis
  proof (cases "getToken env (param (qs ''code'')) redirectUri")
    case (Inl e)
    with h assms show ?thesis by (auto simp: touches_cache_def split: if_splits)
  next
    case (Inr tokens)
    let ?w2 = "w\<lparr>calls := calls w @ [GetToken (param (qs ''code'')) redirectUri,
                                         SetCredentials tokens],
                     client_credentials := tokens\<rparr>"
    have "GetToken (param (qs ''code'')) redirectUri
            \<in> set (drop (length (calls w))
                 (calls (requestHandler env nonce redirectUri port req_url w)))"
    proof (cases rule: cacheCredentials_cases [of env tokens ?w2])
      case (failed e new)
      with h Inr show ?thesis by simp
    next
      case saved
      with h Inr show ?thesis by simp
    qed
    with Inr show ?thesis by blast
  qed
qed

lemma exchangeCodeFunction_unfolded:
  assumes "trim code \<noteq> []"
  shows "exchangeCodeFunction env redirectUri code w =
     (case getToken env (trim code) redirectUri of
        Inl e \<Rightarrow>
          (Inl (Error (''Error exchanging authorization code: '' @ message e)),
           w\<lparr>calls := calls w @ [GetToken (trim code) redirectUri],
             loginComplete := reject (Error (''Error exchanging authorization code: '' @ message e))
                                (loginComplete w)\<rparr>)
      | Inr tokens \<Rightarrow>
          (case cacheCredentials env tokens
                  (w\<lparr>calls := calls w @ [GetToken (trim code) redirectUri, SetCredentials tokens],
                     client_credentials := tokens\<rparr>) of
             (Inl e, w3) \<Rightarrow>
               (Inl (Error (''Error exchanging authorization code: '' @ message e)),
                w3\<lparr>loginComplete :=
                     reject (Error (''Error exchanging authorization code: '' @ message e))
                       (loginComplete w3)\<rparr>)
           | (Inr u, w3) \<Rightarrow> (Inr (), w3\<lparr>loginComplete := resolve (loginComplete w3)\<rparr>)))"
proof -
  from assms have "code \<noteq> []" by (auto simp: trim_def)
  with assms show ?thesis
    by (simp add: exchangeCodeFunction_def exchangeCode_try_def world_ops Let_def
        split: sum.splits prod.splits)
qed

lemma exchange_failure_keeps_files:
  assumes "fst (exchangeCodeFunction env redirectUri code w) \<noteq> Inr ()"
  shows "files (snd (exchangeCodeFunction env redirectUri code w)) = files w"
proof (cases "trim code = []")
  case True
  then show ?thesis by (simp add: exchangeCodeFunction_def do_reject_def Let_def)
next
  case False
  note h = exchangeCodeFunction_unfolded [OF False, of env redirectUri w]
  show ?thesis
  proof (cases "getToken env (trim code) redirectUri")
    case (Inl e)
    with h show ?thesis by simp
  next
    case (Inr tokens)
    let ?w2 = "w\<lparr>calls := calls w @ [GetToken (trim code) redirectUri, SetCredentials tokens],
                     client_credentials := tokens\<rparr>"
    show ?thesis
    proof (cases rule: cacheCredentials_cases [of env tokens ?w2])
      case (failed e new)
      with h Inr show ?thesis by simp
    next
      case saved
      with h Inr assms show ?thesis by simp
    qed
  qed
qed

lemma exchange_touch_needs_tokens:
  assumes "c \<in> set (drop (length (calls w))
              (calls (snd (exchangeCodeFunction env redirectUri code w))))"
    and "touches_cache c"
  shows "\<exists>tokens. getToken env (trim code) redirectUri = Inr tokens"
proof (cases "trim code = []")
  case True
  with assms(1) show ?thesis by (simp add: exchangeCodeFunction_def do_reject_def Let_def)
next
  case False
  note h = exchangeCodeFunction_unfolded [OF False, of env redirectUri w]
  show ?thesis
  proof (cases "getToken env (trim code) redirectUri")
    case (Inl e)
    with h assms show ?thesis by (auto simp: touches_cache_def)
  next
    case (Inr tokens)
    then show ?thesis by blast
  qed
qed

text \<open>
  C3: a failing login attempt leaves the credential file as it was. The \<open>'error'\<close>
  listener of the server (a bind failure) calls nothing and changes no file. A callback
  request that does not resolve the pending promise changes no file, and the handler
  calls \<open>mkdir\<close> or \<open>writeFile\<close> only after a \<open>getToken\<close> call of the same request
  has returned tokens; so an unexpected request, a provider error, a state mismatch, a
  missing code and a rejected token exchange never reach \<open>cacheCredentials\<close>. The same
  holds of \<open>exchangeCodeFunction\<close>: when it throws, no file has changed, and it
  touches the disk only after \<open>getToken\<close> has returned tokens.
\<close>

theorem failed_login_leaves_cache_untouched:
  "files (server_on_error e w) = files w
   \<and> calls (server_on_error e w) = calls w
   \<and> (loginComplete w = Pending
        \<and> loginComplete (requestHandler env nonce redirectUri port req_url w) \<noteq> Fulfilled \<longrightarrow>
        files (requestHandler env nonce redirectUri port req_url w) = files w)
   \<and> ((\<exists>c \<in> set (drop (length (calls w))
                (calls (requestHandler env nonce redirectUri port req_url w))). touches_cache c) \<longrightarrow>
        (\<exists>code tokens. GetToken code redirectUri
            \<in> set (drop (length (calls w))
                 (calls (requestHandler env nonce redirectUri port req_url w)))
          \<and> getToken env code redirectUri = Inr tokens))
   \<and> (fst (exchangeCodeFunction env redirectUri code w) \<noteq> Inr () \<longrightarrow>
        files (snd (exchangeCodeFunction env redirectUri code w)) = files w)
   \<and> ((\<exists>c \<in> set (drop (length (calls w))
                (calls (snd (exchangeCodeFunction env redirectUri code w)))). touches_cache c) \<longrightarrow>
        (\<exists>tokens. getToken env (trim code) redirectUri = Inr tokens))"
proof -
  have a: "files (server_on_error e w) = files w \<and> calls (server_on_error e w) = calls w"
    by (simp add: server_on_error_def do_reject_def)
  show ?thesis
    using a handler_failure_keeps_files [of w env nonce redirectUri port req_url]
      handler_touch_needs_tokens [of _ w env nonce redirectUri port req_url]
      exchange_failure_keeps_files [of env redirectUri code w]
      exchange_touch_needs_tokens [of _ w env redirectUri code]
    by blast
qed

lemma demo_request_params:
  "\<not> isUnexpectedRequest (Some ''/oauth2callback?code=bad&state=n0nce'')"
  "URL_searchParams demo_env (show_url (Some ''/oauth2callback?code=bad&state=n0nce''))
       (''http://localhost:'' @ string_of_nat 8081)
     = Inr (map_of [(''code'', ''bad''), (''state'', ''n0nce'')])"
  "\<not> isUnexpectedRequest (Some ''/oauth2callback?code=ABC&state=n0nce'')"
  "URL_searchParams demo_env (show_url (Some ''/oauth2callback?code=ABC&state=n0nce''))
       (''http://localhost:'' @ string_of_nat 8081)
     = Inr (map_of [(''code'', ''ABC''), (''state'', ''n0nce'')])"
  by (simp_all add: isUnexpectedRequest_def indexOf_def show_url_def demo_env_def
      simple_searchParams_def query_of_def query_pair_def)

lemma demo_dirname:
  "path_dirname demo_env ''/home/user/.gemini/oauth_creds.json'' = ''/home/user/.gemini''"
  by (simp add: demo_env_def posix_dirname_def)

text \<open>
  A callback whose code the token endpoint rejects, a callback that succeeds, and a
  headless exchange that is rejected.
\<close>

theorem failed_login_leaves_cache_untouched_witness:
  "loginComplete world0 = Pending
   \<and> loginComplete (requestHandler demo_env ''n0nce'' ''http://localhost:8081/oauth2callback'' 8081
         (Some ''/oauth2callback?code=bad&state=n0nce'') world0)
       = Rejected (Error ''invalid_grant'')
   \<and> files (requestHandler demo_env ''n0nce'' ''http://localhost:8081/oauth2callback'' 8081
         (Some ''/oauth2callback?code=bad&state=n0nce'') world0) = files world0
   \<and> touches_cache (Mkdir ''/home/user/.gemini'')
   \<and> Mkdir ''/home/user/.gemini''
       \<in> set (drop (length (calls world0))
            (calls (requestHandler demo_env ''n0nce'' ''http://localhost:8081/oauth2callback'' 8081
               (Some ''/oauth2callback?code=ABC&state=n0nce'') world0)))
   \<and> (\<exists>code tokens. GetToken code ''http://localhost:8081/oauth2callback''
            \<in> set (drop (length (calls world0))
                 (calls (requestHandler demo_env ''n0nce'' ''http://localhost:8081/oauth2callback''
                    8081 (Some ''/oauth2callback?code=ABC&state=n0nce'') world0)))
          \<and> getToken demo_env code ''http://localhost:8081/oauth2callback'' = Inr tokens)
   \<and> fst (exchangeCodeFunction demo_env ''urn:ietf:wg:oauth:2.0:oob'' ''bad'' world0)
       = Inl (Error ''Error exchanging authorization code: invalid_grant'')
   \<and> files (snd (exchangeCodeFunction demo_env ''urn:ietf:wg:oauth:2.0:oob'' ''bad'' world0))
       = files world0"
proof -
  let ?uri = "''http://localhost:8081/oauth2callback''"
  let ?bad = "Some ''/oauth2callback?code=bad&state=n0nce''"
  let ?good = "Some ''/oauth2callback?code=ABC&state=n0nce''"
  have p: "loginComplete world0 = Pending" by (simp add: world0_def)
  have hb: "requestHandler demo_env ''n0nce'' ?uri 8081 ?bad world0 =
      world0\<lparr>calls := calls world0 @ [GetToken ''bad'' ?uri],
             res_head := Some (301, SIGN_IN_FAILURE_URL), res_ended := Some [],
             loginComplete := reject (Error ''invalid_grant'') (loginComplete world0),
             server_listening := False\<rparr>"
    by (subst handler_with_exchange [OF demo_request_params(1) demo_request_params(2)])
       (simp_all add: truthy_def param_def demo_env_def demo_getToken_def world0_def)
  then have rb: "loginComplete (requestHandler demo_env ''n0nce'' ?uri 8081 ?bad world0)
      = Rejected (Error ''invalid_grant'')"
    by (simp add: reject_def p)
  then have nb: "loginComplete world0 = Pending \<and>
      loginComplete (requestHandler demo_env ''n0nce'' ?uri 8081 ?bad world0) \<noteq> Fulfilled"
    using p by simp
  have tk: "getToken demo_env ''ABC'' ?uri = demo_getToken ''ABC'' ?uri"
    by (simp add: demo_env_def)
  obtain t where t: "demo_getToken ''ABC'' ?uri = Inr t"
    by (simp add: demo_getToken_def)
  have hg: "calls (requestHandler demo_env ''n0nce'' ?uri 8081 ?good world0) =
      [GetToken ''ABC'' ?uri, SetCredentials t, Mkdir ''/home/user/.gemini'',
       WriteFile ''/home/user/.gemini/oauth_creds.json'' (JSON_stringify t)]"
    by (subst handler_with_exchange [OF demo_request_params(3) demo_request_params(4)])
       (simp_all add: truthy_def param_def tk t cache_unfold demo_fs_ok demo_dirname demo_path
          Let_def world0_def)
  have tc: "touches_cache (Mkdir ''/home/user/.gemini'')" by (simp add: touches_cache_def)
  have mk: "Mkdir ''/home/user/.gemini''
       \<in> set (drop (length (calls world0))
            (calls (requestHandler demo_env ''n0nce'' ?uri 8081 ?good world0)))"
    unfolding hg by (simp add: world0_def)
  have xb: "fst (exchangeCodeFunction demo_env ''urn:ietf:wg:oauth:2.0:oob'' ''bad'' world0)
       = Inl (Error ''Error exchanging authorization code: invalid_grant'')"
    by (subst exchangeCodeFunction_unfolded)
       (simp_all add: trim_def isWhiteSpace_def demo_env_def demo_getToken_def)
  then have xn: "fst (exchangeCodeFunction demo_env ''urn:ietf:wg:oauth:2.0:oob'' ''bad'' world0)
       \<noteq> Inr ()" by simp
  note r1 = failed_login_leaves_cache_untouched [where w = world0 and env = demo_env
      and nonce = "''n0nce''" and redirectUri = ?uri and port = 8081 and req_url = ?bad]
  note r2 = failed_login_leaves_cache_untouched [where w = world0 and env = demo_env
      and nonce = "''n0nce''" and redirectUri = ?uri and port = 8081 and req_url = ?good]
  note r3 = failed_login_leaves_cache_untouched [where w = world0 and env = demo_env
      and redirectUri = "''urn:ietf:wg:oauth:2.0:oob''" and code = "''bad''"]
  from r1 nb have fb: "files (requestHandler demo_env ''n0nce'' ?uri 8081 ?bad world0)
      = files world0" by blast
  from r2 tc mk have ex: "\<exists>code tokens. GetToken code ?uri
            \<in> set (drop (length (calls world0))
                 (calls (requestHandler demo_env ''n0nce'' ?uri 8081 ?good world0)))
          \<and> getToken demo_env code ?uri = Inr tokens" by blast
  from r3 xn have fx: "files (snd (exchangeCodeFunction demo_env ''urn:ietf:wg:oauth:2.0:oob''
      ''bad'' world0)) = files world0" by blast
  show ?thesis
    by (intro conjI) (rule p, rule rb, rule fb, rule tc, rule mk, rule ex, rule xb, rule fx)
qed

section \<open>Which requests the callback receiver accepts\<close>

lemma handler_exchange_calls:
  assumes "\<not> isUnexpectedRequest req_url"
    and "URL_searchParams env (show_url req_url) (''http://localhost:'' @ string_of_nat port) = Inr qs"
    and "\<not> truthy (qs ''error'')" and "qs ''state'' = Some nonce" and "truthy (qs ''code'')"
  shows "take (Suc (length (calls w))) (calls (requestHandler env nonce redirectUri port req_url w))
     = calls w @ [GetToken (param (qs ''code'')) redirectUri]"
proof -
  note h = handler_with_exchange [OF assms, where redirectUri = redirectUri and w = w]
  show ?thesis
  proof (cases "getToken env (param (qs ''code'')) redirectUri")
    case (Inl e)
    with h show ?thesis by simp
  next
    case (Inr tokens)
    let ?w2 = "w\<lparr>calls := calls w @ [GetToken (param (qs ''code'')) redirectUri,
                                         SetCredentials tokens],
                     client_credentials := tokens\<rparr>"
    show ?thesis
    proof (cases rule: cacheCredentials_cases [of env tokens ?w2])
      case (failed e new)
      with h Inr show ?thesis by simp
    next
      case saved
      with h Inr show ?thesis by simp
    qed
  qed
qed

lemma handler_exchange_success:
  assumes "\<not> isUnexpectedRequest req_url"
    and "URL_searchParams env (show_url req_url) (''http://localhost:'' @ string_of_nat port) = Inr qs"
    and "\<not> truthy (qs ''error'')" and "qs ''state'' = Some nonce" and "truthy (qs ''code'')"
    and "getToken env (param (qs ''code'')) redirectUri = Inr tokens"
    and "mkdir_error env (path_dirname env (getCachedCredentialPath env)) = None"
    and "writeFile_error env (getCachedCredentialPath env) = None"
  shows "res_head (requestHandler env nonce redirectUri port req_url w)
           = Some (301, SIGN_IN_SUCCESS_URL)
       \<and> loginComplete (requestHandler env nonce redirectUri port req_url w)
           = resolve (loginComplete w)
       \<and> files (requestHandler env nonce redirectUri port req_url w)
           = (files w)(getCachedCredentialPath env \<mapsto> JSON_stringify tokens)"
  by (subst handler_with_exchange [OF assms(1-5)], subst handler_with_exchange [OF assms(1-5)],
      subst handler_with_exchange [OF assms(1-5)])
     (simp add: assms(6-8) cache_unfold Let_def)

lemma handler_rejections:
  assumes "\<not> isUnexpectedRequest req_url"
  shows "URL_searchParams env (show_url req_url) (''http://localhost:'' @ string_of_nat port) = Inl e
       \<Longrightarrow> loginComplete (requestHandler env nonce redirectUri port req_url w)
           = reject e (loginComplete w)"
    and "URL_searchParams env (show_url req_url) (''http://localhost:'' @ string_of_nat port) = Inr qs
       \<Longrightarrow> truthy (qs ''error'')
       \<Longrightarrow> loginComplete (requestHandler env nonce redirectUri port req_url w)
           = reject (Error (''Error during authentication: '' @ param (qs ''error'')))
               (loginComplete w)"
    and "URL_searchParams env (show_url req_url) (''http://localhost:'' @ string_of_nat port) = Inr qs
       \<Longrightarrow> \<not> truthy (qs ''error'') \<Longrightarrow> qs ''state'' \<noteq> Some nonce
       \<Longrightarrow> loginComplete (requestHandler env nonce redirectUri port req_url w)
           = reject (Error ''State mismatch. Possible CSRF attack.'') (loginComplete w)"
    and "URL_searchParams env (show_url req_url) (''http://localhost:'' @ string_of_nat port) = Inr qs
       \<Longrightarrow> \<not> truthy (qs ''error'') \<Longrightarrow> qs ''state'' = Some nonce \<Longrightarrow> \<not> truthy (qs ''code'')
       \<Longrightarrow> loginComplete (requestHandler env nonce redirectUri port req_url w)
           = reject (Error ''No code found in request'') (loginComplete w)"
  using assms by (simp_all add: handler_core)

text \<open>
  C5, amended: a request is unexpected exactly when it has no URL or its URL does not
  contain \<open>/oauth2callback\<close> as a substring. Every unexpected request is answered
  with the redirect to the failure page and fails the attempt with
  \<open>Unexpected request: <url>\<close>, without calling a collaborator or touching a file, and
  the server closes. Every request whose URL contains \<open>/oauth2callback\<close>, wherever in
  it, is accepted: the handler goes on with its query. It rejects with the exception of
  the URL parser, with the provider's error, with the state mismatch or with the missing
  code, and otherwise it calls \<open>getToken\<close> with the code; when that returns tokens and
  the file is written, the answer is the redirect to the success page, the promise is
  resolved and the tokens are in the credential file.
\<close>

theorem unexpected_request_rejected:
  "(isUnexpectedRequest req_url
      = (\<forall>u. req_url = Some u \<longrightarrow> \<not> sublist ''/oauth2callback'' u))
   \<and> (isUnexpectedRequest req_url \<longrightarrow>
        res_head (requestHandler env nonce redirectUri port req_url w)
          = Some (301, SIGN_IN_FAILURE_URL)
      \<and> res_ended (requestHandler env nonce redirectUri port req_url w) = Some []
      \<and> loginComplete (requestHandler env nonce redirectUri port req_url w)
          = reject (Error (''Unexpected request: '' @ show_url req_url)) (loginComplete w)
      \<and> calls (requestHandler env nonce redirectUri port req_url w) = calls w
      \<and> files (requestHandler env nonce redirectUri port req_url w) = files w
      \<and> \<not> server_listening (requestHandler env nonce redirectUri port req_url w))
   \<and> (\<forall>u e. sublist ''/oauth2callback'' u
        \<and> URL_searchParams env u (''http://localhost:'' @ string_of_nat port) = Inl e \<longrightarrow>
        loginComplete (requestHandler env nonce redirectUri port (Some u) w)
          = reject e (loginComplete w))
   \<and> (\<forall>u qs. sublist ''/oauth2callback'' u
        \<and> URL_searchParams env u (''http://localhost:'' @ string_of_nat port) = Inr qs \<longrightarrow>
        (truthy (qs ''error'') \<longrightarrow>
           loginComplete (requestHandler env nonce redirectUri port (Some u) w)
             = reject (Error (''Error during authentication: '' @ param (qs ''error'')))
                 (loginComplete w))
      \<and> (\<not> truthy (qs ''error'') \<and> qs ''state'' \<noteq> Some nonce \<longrightarrow>
           loginComplete (requestHandler env nonce redirectUri port (Some u) w)
             = reject (Error ''State mismatch. Possible CSRF attack.'') (loginComplete w))
      \<and> (\<not> truthy (qs ''error'') \<and> qs ''state'' = Some nonce \<and> \<not> truthy (qs ''code'') \<longrightarrow>
           loginComplete (requestHandler env nonce redirectUri port (Some u) w)
             = reject (Error ''No code found in request'') (loginComplete w))
      \<and> (\<not> truthy (qs ''error'') \<and> qs ''state'' = Some nonce \<and> truthy (qs ''code'') \<longrightarrow>
           take (Suc (length (calls w)))
                (calls (requestHandler env nonce redirectUri port (Some u) w))
             = calls w @ [GetToken (param (qs ''code'')) redirectUri]
         \<and> (\<forall>tokens. getToken env (param (qs ''code'')) redirectUri = Inr tokens
               \<and> mkdir_error env (path_dirname env (getCachedCredentialPath env)) = None
               \<and> writeFile_error env (getCachedCredentialPath env) = None \<longrightarrow>
               res_head (requestHandler env nonce redirectUri port (Some u) w)
                 = Some (301, SIGN_IN_SUCCESS_URL)
             \<and> loginComplete (requestHandler env nonce redirectUri port (Some u) w)
                 = resolve (loginComplete w)
             \<and> files (requestHandler env nonce redirectUri port (Some u) w)
                 = (files w)(getCachedCredentialPath env \<mapsto> JSON_stringify tokens))))"
proof -
  have a: "isUnexpectedRequest req_url
      = (\<forall>u. req_url = Some u \<longrightarrow> \<not> sublist ''/oauth2callback'' u)"
  proof (cases req_url)
    case None
    then show ?thesis by (simp add: isUnexpectedRequest_def)
  next
    case (Some u)
    then show ?thesis by (simp add: isUnexpectedRequest_Some)
  qed
  have b: "isUnexpectedRequest req_url \<longrightarrow>
        res_head (requestHandler env nonce redirectUri port req_url w)
          = Some (301, SIGN_IN_FAILURE_URL)
      \<and> res_ended (requestHandler env nonce redirectUri port req_url w) = Some []
      \<and> loginComplete (requestHandler env nonce redirectUri port req_url w)
          = reject (Error (''Unexpected request: '' @ show_url req_url)) (loginComplete w)
      \<and> calls (requestHandler env nonce redirectUri port req_url w) = calls w
      \<and> files (requestHandler env nonce redirectUri port req_url w) = files w
      \<and> \<not> server_listening (requestHandler env nonce redirectUri port req_url w)"
    by (simp add: handler_unfold)
  have acc: "\<not> isUnexpectedRequest (Some u)" "show_url (Some u) = u"
    if "sublist ''/oauth2callback'' u" for u
    using that by (simp_all add: isUnexpectedRequest_Some show_url_def)
  have c: "loginComplete (requestHandler env nonce redirectUri port (Some u) w)
          = reject e (loginComplete w)"
    if "sublist ''/oauth2callback'' u"
      "URL_searchParams env u (''http://localhost:'' @ string_of_nat port) = Inl e" for u e
    using handler_rejections(1) [OF acc(1) [OF that(1)], where env = env and port = port and e = e
        and nonce = nonce and redirectUri = redirectUri and w = w]
      that(2) acc(2) [OF that(1)] by simp
  have d: "(truthy (qs ''error'') \<longrightarrow>
           loginComplete (requestHandler env nonce redirectUri port (Some u) w)
             = reject (Error (''Error during authentication: '' @ param (qs ''error'')))
                 (loginComplete w))
      \<and> (\<not> truthy (qs ''error'') \<and> qs ''state'' \<noteq> Some nonce \<longrightarrow>
           loginComplete (requestHandler env nonce redirectUri port (Some u) w)
             = reject (Error ''State mismatch. Possible CSRF attack.'') (loginComplete w))
      \<and> (\<not> truthy (qs ''error'') \<and> qs ''state'' = Some nonce \<and> \<not> truthy (qs ''code'') \<longrightarrow>
           loginComplete (requestHandler env nonce redirectUri port (Some u) w)
             = reject (Error ''No code found in request'') (loginComplete w))
      \<and> (\<not> truthy (qs ''error'') \<and> qs ''state'' = Some nonce \<and> truthy (qs ''code'') \<longrightarrow>
           take (Suc (length (calls w)))
                (calls (requestHandler env nonce redirectUri port (Some u) w))
             = calls w @ [GetToken (param (qs ''code'')) redirectUri]
         \<and> (\<forall>tokens. getToken env (param (qs ''code'')) redirectUri = Inr tokens
               \<and> mkdir_error env (path_dirname env (getCachedCredentialPath env)) = None
               \<and> writeFile_error env (getCachedCredentialPath env) = None \<longrightarrow>
               res_head (requestHandler env nonce redirectUri port (Some u) w)
                 = Some (301, SIGN_IN_SUCCESS_URL)
             \<and> loginComplete (requestHandler env nonce redirectUri port (Some u) w)
                 = resolve (loginComplete w)
             \<and> files (requestHandler env nonce redirectUri port (Some u) w)
                 = (files w)(getCachedCredentialPath env \<mapsto> JSON_stringify tokens)))"
    if s: "sublist ''/oauth2callback'' u"
      and q: "URL_searchParams env u (''http://localhost:'' @ string_of_nat port) = Inr qs"
    for u qs
  proof -
    note n = acc(1) [OF s]
    from q acc(2) [OF s] have q': "URL_searchParams env (show_url (Some u))
        (''http://localhost:'' @ string_of_nat port) = Inr qs" by simp
    note r = handler_rejections(2-4) [OF n q', where nonce = nonce and redirectUri = redirectUri
        and w = w]
    note x = handler_exchange_calls [OF n q', where nonce = nonce and redirectUri = redirectUri
        and w = w]
    note y = handler_exchange_success [OF n q', where nonce = nonce
        and redirectUri = redirectUri and w = w]
    show ?thesis
    proof (intro conjI impI allI)
      assume "truthy (qs ''error'')"
      then show "loginComplete (requestHandler env nonce redirectUri port (Some u) w)
             = reject (Error (''Error during authentication: '' @ param (qs ''error'')))
                 (loginComplete w)" by (rule r(1))
    next
      assume "\<not> truthy (qs ''error'') \<and> qs ''state'' \<noteq> Some nonce"
      then show "loginComplete (requestHandler env nonce redirectUri port (Some u) w)
             = reject (Error ''State mismatch. Possible CSRF attack.'') (loginComplete w)"
        using r(2) by simp
    next
      assume "\<not> truthy (qs ''error'') \<and> qs ''state'' = Some nonce \<and> \<not> truthy (qs ''code'')"
      then show "loginComplete (requestHandler env nonce redirectUri port (Some u) w)
             = reject (Error ''No code found in request'') (loginComplete w)"
        using r(3) by simp
    next
      assume "\<not> truthy (qs ''error'') \<and> qs ''state'' = Some nonce \<and> truthy (qs ''code'')"
      then show "take (Suc (length (calls w)))
                (calls (requestHandler env nonce redirectUri port (Some u) w))
             = calls w @ [GetToken (param (qs ''code'')) redirectUri]"
        using x by simp
    next
      fix tokens
      assume "\<not> truthy (qs ''error'') \<and> qs ''state'' = Some nonce \<and> truthy (qs ''code'')"
        and "getToken env (param (qs ''code'')) redirectUri = Inr tokens
               \<and> mkdir_error env (path_dirname env (getCachedCredentialPath env)) = None
               \<and> writeFile_error env (getCachedCredentialPath env) = None"
      then have ok: "res_head (requestHandler env nonce redirectUri port (Some u) w)
                 = Some (301, SIGN_IN_SUCCESS_URL)
             \<and> loginComplete (requestHandler env nonce redirectUri port (Some u) w)
                 = resolve (loginComplete w)
             \<and> files (requestHandler env nonce redirectUri port (Some u) w)
                 = (files w)(getCachedCredentialPath env \<mapsto> JSON_stringify tokens)"
        using y [of tokens] by simp
      from ok show "res_head (requestHandler env nonce redirectUri port (Some u) w)
                 = Some (301, SIGN_IN_SUCCESS_URL)" by (rule conjunct1)
      from ok show "loginComplete (requestHandler env nonce redirectUri port (Some u) w)
                 = resolve (loginComplete w)" by (rule conjunct2 [THEN conjunct1])
      from ok show "files (requestHandler env nonce redirectUri port (Some u) w)
                 = (files w)(getCachedCredentialPath env \<mapsto> JSON_stringify tokens)"
        by (rule conjunct2 [THEN conjunct2])
    qed
  qed
  have c': "\<forall>u e. sublist ''/oauth2callback'' u
        \<and> URL_searchParams env u (''http://localhost:'' @ string_of_nat port) = Inl e \<longrightarrow>
        loginComplete (requestHandler env nonce redirectUri port (Some u) w)
          = reject e (loginComplete w)"
    by (intro allI impI, elim conjE) (rule c)
  show ?thesis
    by (rule conjI [OF a conjI [OF b conjI [OF c']]], intro allI impI, elim conjE) (rule d)
qed

text \<open>
  A request for \<open>/favicon.ico\<close> is unexpected; a request for \<open>/evil/oauth2callback\<close>
  with the nonce and a code is accepted and completes the login.
\<close>

theorem unexpected_request_rejected_witness:
  "isUnexpectedRequest (Some ''/favicon.ico'')
   \<and> \<not> sublist ''/oauth2callback'' ''/favicon.ico''
   \<and> res_head (requestHandler demo_env ''n0nce'' ''http://localhost:8081/oauth2callback'' 8081
         (Some ''/favicon.ico'') world0) = Some (301, SIGN_IN_FAILURE_URL)
   \<and> loginComplete (requestHandler demo_env ''n0nce'' ''http://localhost:8081/oauth2callback'' 8081
         (Some ''/favicon.ico'') world0) = Rejected (Error ''Unexpected request: /favicon.ico'')
   \<and> sublist ''/oauth2callback'' ''/evil/oauth2callback?code=ABC&state=n0nce''
   \<and> URL_searchParams demo_env ''/evil/oauth2callback?code=ABC&state=n0nce''
         (''http://localhost:'' @ string_of_nat 8081)
       = Inr (map_of [(''code'', ''ABC''), (''state'', ''n0nce'')])
   \<and> res_head (requestHandler demo_env ''n0nce'' ''http://localhost:8081/oauth2callback'' 8081
         (Some ''/evil/oauth2callback?code=ABC&state=n0nce'') world0)
       = Some (301, SIGN_IN_SUCCESS_URL)
   \<and> loginComplete (requestHandler demo_env ''n0nce'' ''http://localhost:8081/oauth2callback'' 8081
         (Some ''/evil/oauth2callback?code=ABC&state=n0nce'') world0) = Fulfilled"
proof -
  let ?uri = "''http://localhost:8081/oauth2callback''"
  let ?u = "''/evil/oauth2callback?code=ABC&state=n0nce''"
  let ?qs = "map_of [(''code'', ''ABC''), (''state'', ''n0nce'')]"
  have h: "isUnexpectedRequest (Some ''/favicon.ico'')"
    by (simp add: isUnexpectedRequest_def indexOf_def)
  note r = unexpected_request_rejected [of "Some ''/favicon.ico''" demo_env "''n0nce''"
      ?uri 8081 world0]
  from r [THEN conjunct1] h
  have s: "\<not> sublist ''/oauth2callback'' ''/favicon.ico''" by simp
  note r2 = r [THEN conjunct2, THEN conjunct1, THEN mp, OF h]
  from r2 have hd: "res_head (requestHandler demo_env ''n0nce''
      ''http://localhost:8081/oauth2callback'' 8081 (Some ''/favicon.ico'') world0)
      = Some (301, SIGN_IN_FAILURE_URL)" by (rule conjunct1)
  from r2 have "loginComplete (requestHandler demo_env ''n0nce''
      ''http://localhost:8081/oauth2callback'' 8081 (Some ''/favicon.ico'') world0)
      = reject (Error (''Unexpected request: '' @ show_url (Some ''/favicon.ico'')))
          (loginComplete world0)" by (rule conjunct2 [THEN conjunct2, THEN conjunct1])
  then have lc: "loginComplete (requestHandler demo_env ''n0nce''
      ''http://localhost:8081/oauth2callback'' 8081 (Some ''/favicon.ico'') world0)
      = Rejected (Error ''Unexpected request: /favicon.ico'')"
    by (simp add: reject_def world0_def show_url_def)
  have "indexOf ?u ''/oauth2callback'' \<noteq> - 1" by (simp add: indexOf_def)
  then have a1: "sublist ''/oauth2callback'' ?u" by (simp add: indexOf_sublist)
  have a2: "URL_searchParams demo_env ?u (''http://localhost:'' @ string_of_nat 8081) = Inr ?qs"
    by (simp add: demo_env_def simple_searchParams_def query_of_def query_pair_def)
  have a3: "\<not> truthy (?qs ''error'') \<and> ?qs ''state'' = Some ''n0nce'' \<and> truthy (?qs ''code'')"
    by (simp add: truthy_def)
  have a4: "getToken demo_env (param (?qs ''code'')) ?uri
      = Inr [(''access_token'', JString (''ya29.'' @ ''ABC'')),
          (''refresh_token'', JString ''1//0g''),
          (''token_type'', JString ''Bearer''),
          (''expiry_date'', JNumber (safe_integer 1750000000000))]"
    by (simp add: param_def demo_getToken_ok)
  note acc = unexpected_request_rejected [of "Some ?u" demo_env "''n0nce''" ?uri 8081 world0]
  note acc4 = acc [THEN conjunct2, THEN conjunct2, THEN conjunct2, THEN spec, THEN spec,
      THEN mp, OF conjI [OF a1 a2], THEN conjunct2, THEN conjunct2, THEN conjunct2,
      THEN mp, OF a3, THEN conjunct2, THEN spec, THEN mp,
      OF conjI [OF a4 conjI [OF demo_fs_ok(1) demo_fs_ok(2)]]]
  from acc4 have o1: "res_head (requestHandler demo_env ''n0nce'' ?uri 8081 (Some ?u) world0)
        = Some (301, SIGN_IN_SUCCESS_URL)" by (rule conjunct1)
  from acc4 have "loginComplete (requestHandler demo_env ''n0nce'' ?uri 8081 (Some ?u) world0)
        = resolve (loginComplete world0)" by (rule conjunct2 [THEN conjunct1])
  then have o2: "loginComplete (requestHandler demo_env ''n0nce'' ?uri 8081 (Some ?u) world0)
        = Fulfilled"
    by (simp add: resolve_def world0_def)
  show ?thesis
    by (intro conjI) (rule h, rule s, rule hd, rule lc, rule a1, rule a2, rule o1, rule o2)
qed

end
